theory Spec2Isabelle
  imports Complex_Main "HOL-Library.List_Lexorder" "HOL-Library.Product_Lexorder"
    "HOL-Library.Code_Target_Nat"
begin

section \<open>Python strings\<close>

text \<open>
  A Python \<open>str\<close> is a sequence of Unicode code points; it is modelled as a list of
  natural numbers. The separators the program uses are the code points 40 \<open>(\<close>,
  41 \<open>)\<close>, 44 \<open>,\<close>, 45 \<open>-\<close>, 32 (space) and 72 \<open>H\<close>.
\<close>

type_synonym pystr = "nat list"

text \<open>The code points for which \<open>str.isspace\<close> holds; \<open>strip()\<close> and \<open>split()\<close>
  without argument use exactly this set.\<close>

definition is_space :: "nat \<Rightarrow> bool" where
  "is_space c \<longleftrightarrow>
     (9 \<le> c \<and> c \<le> 13) \<or> (28 \<le> c \<and> c \<le> 32) \<or> c = 133 \<or> c = 160 \<or> c = 5760 \<or>
     (8192 \<le> c \<and> c \<le> 8202) \<or> c = 8232 \<or> c = 8233 \<or> c = 8239 \<or> c = 8287 \<or> c = 12288"

definition is_ascii :: "pystr \<Rightarrow> bool" where
  "is_ascii s \<longleftrightarrow> list_all (\<lambda>c. c < 128) s"

definition has_upper :: "pystr \<Rightarrow> bool" where
  "has_upper s \<longleftrightarrow> list_ex (\<lambda>c. 65 \<le> c \<and> c \<le> 90) s"

definition ascii_lower :: "nat \<Rightarrow> nat" where
  "ascii_lower c = (if 65 \<le> c \<and> c \<le> 90 then c + 32 else c)"

text \<open>\<open>s.strip()\<close>\<close>

definition py_strip :: "pystr \<Rightarrow> pystr" where
  "py_strip s = rev (dropWhile is_space (rev (dropWhile is_space s)))"

text \<open>\<open>s.replace(c, new)\<close> for a one-character \<open>c\<close>\<close>

definition py_replace :: "nat \<Rightarrow> pystr \<Rightarrow> pystr \<Rightarrow> pystr" where
  "py_replace c new s = concat (map (\<lambda>x. if x = c then new else [x]) s)"

text \<open>\<open>s.split()\<close>: the maximal runs of non-whitespace code points, in order\<close>

fun py_split :: "pystr \<Rightarrow> pystr list" where
  "py_split [] = []"
| "py_split (c # cs) =
     (if is_space c then py_split cs
      else if cs = [] \<or> is_space (hd cs) then [c] # py_split cs
      else (case py_split cs of [] \<Rightarrow> [[c]] | w # ws \<Rightarrow> (c # w) # ws))"

text \<open>\<open>s.split(sep)\<close> for a one-character separator: always at least one part\<close>

fun split_on :: "nat \<Rightarrow> pystr \<Rightarrow> pystr list" where
  "split_on sep [] = [[]]"
| "split_on sep (c # cs) =
     (if c = sep then [] # split_on sep cs
      else (case split_on sep cs of [] \<Rightarrow> [[c]] | w # ws \<Rightarrow> (c # w) # ws))"

text \<open>\<open>sep.join(ws)\<close>\<close>

fun py_join :: "pystr \<Rightarrow> pystr list \<Rightarrow> pystr" where
  "py_join sep [] = []"
| "py_join sep [w] = w"
| "py_join sep (w # ws) = w @ sep @ py_join sep ws"

text \<open>Two adjacent whitespace code points somewhere in the string\<close>

fun has_space_run :: "pystr \<Rightarrow> bool" where
  "has_space_run (a # b # cs) \<longleftrightarrow> (is_space a \<and> is_space b) \<or> has_space_run (b # cs)"
| "has_space_run _ \<longleftrightarrow> False"

section \<open>Values and the runtime\<close>

text \<open>
  A value held by a table cell or passed to a function: a missing value (\<open>NaN\<close> or
  \<open>None\<close>), an integer, a float, a string or a boolean. Floats are modelled as real
  numbers: rounding and the infinities are outside the model.
\<close>

datatype cell = NA | IntV int | FloatV real | StrV pystr | BoolV bool

text \<open>
  The program calls four functions whose behaviour is fixed by tables that are not part of
  the repository: \<open>str.lower\<close> (the Unicode case mapping), \<open>unidecode.unidecode\<close> (the
  transliteration tables of the library), \<open>int(str)\<close> (\<open>None\<close> stands for
  \<open>ValueError\<close>) and the number parser behind \<open>pd.to_numeric\<close> (\<open>None\<close> stands for a
  string that is coerced to \<open>NaN\<close>). They are parameters of the model.
\<close>

record pylib =
  str_lower :: "pystr \<Rightarrow> pystr"
  unidecode :: "pystr \<Rightarrow> pystr"
  str_to_int :: "pystr \<Rightarrow> int option"
  str_to_float :: "pystr \<Rightarrow> real option"

text \<open>
  What is known of the text functions whatever the tables hold: on a string of ASCII
  code points \<open>str.lower\<close> maps \<open>A\<close>..\<open>Z\<close> to \<open>a\<close>..\<open>z\<close> and nothing else,
  \<open>unidecode\<close> returns an ASCII string unchanged, and \<open>unidecode\<close> returns ASCII only.
\<close>

definition text_lib_ok :: "pylib \<Rightarrow> bool" where
  "text_lib_ok lib \<longleftrightarrow>
     (\<forall>s. is_ascii s \<longrightarrow> str_lower lib s = map ascii_lower s) \<and>
     (\<forall>s. is_ascii s \<longrightarrow> unidecode lib s = s) \<and>
     (\<forall>s. is_ascii (unidecode lib s))"

section \<open>Station-name normalisation\<close>

text \<open>\<open>clean_name\<close> (app.py, line 21)\<close>

definition clean_name :: "pylib \<Rightarrow> cell \<Rightarrow> pystr" where
  "clean_name lib name =
     (case name of
        StrV s \<Rightarrow>
          (let n1 = py_strip (str_lower lib s);
               n2 = unidecode lib n1;
               n3 = py_replace 41 [] (py_replace 40 [] n2);
               n4 = py_replace 45 [32] n3
           in py_join [32] (py_split n4))
      | _ \<Rightarrow> [])"

text \<open>The inputs on which the transliteration step leaves no capital letter.\<close>

definition lower_safe :: "pylib \<Rightarrow> cell \<Rightarrow> bool" where
  "lower_safe lib x \<longleftrightarrow>
     (case x of StrV s \<Rightarrow> \<not> has_upper (unidecode lib (py_strip (str_lower lib s))) | _ \<Rightarrow> True)"

definition is_ascii_cell :: "cell \<Rightarrow> bool" where
  "is_ascii_cell x \<longleftrightarrow> (case x of StrV s \<Rightarrow> is_ascii s | _ \<Rightarrow> True)"

subsection \<open>A reference instance of the runtime\<close>

text \<open>
  For evaluation on concrete inputs: an instance of the runtime that agrees with CPython
  and with the \<open>unidecode\<close> library on ASCII text, on the letters of Latin-1 and on the two
  ideographs U+5317 and U+4EB0 of the library's own documentation, which it writes
  \<open>Bei Jing\<close> with a space after each syllable. It is used at such inputs only. A code point absent from the
  transliteration table is dropped, as the library does.
\<close>

definition sample_lower :: "nat \<Rightarrow> nat" where
  "sample_lower c =
     (if 65 \<le> c \<and> c \<le> 90 then c + 32
      else if 192 \<le> c \<and> c \<le> 222 \<and> c \<noteq> 215 then c + 32
      else c)"

definition sample_translit :: "nat \<Rightarrow> pystr" where
  "sample_translit c =
     (if c < 128 then [c]
      else if c = 224 \<or> c = 226 then [97]
      else if c = 231 then [99]
      else if c = 232 \<or> c = 233 \<or> c = 234 then [101]
      else if c = 238 then [105]
      else if c = 244 then [111]
      else if c = 21271 then [66, 101, 105, 32]
      else if c = 20144 then [74, 105, 110, 103, 32]
      else [])"

definition digit_val :: "nat \<Rightarrow> nat" where
  "digit_val c = c - 48"

definition is_digit :: "nat \<Rightarrow> bool" where
  "is_digit c \<longleftrightarrow> 48 \<le> c \<and> c \<le> 57"

definition dec_value :: "pystr \<Rightarrow> nat" where
  "dec_value ds = foldl (\<lambda>a d. 10 * a + digit_val d) 0 ds"

text \<open>\<open>int(s)\<close> on ASCII text: surrounding whitespace, an optional sign, decimal digits
  with single underscores between them.\<close>

definition sample_int :: "pystr \<Rightarrow> int option" where
  "sample_int s =
     (let t = py_strip s;
          neg = (t \<noteq> [] \<and> hd t = 45);
          body = (if t \<noteq> [] \<and> (hd t = 45 \<or> hd t = 43) then tl t else t);
          groups = split_on 95 body
      in if (\<forall>g \<in> set groups. g \<noteq> [] \<and> (\<forall>c \<in> set g. is_digit c))
         then Some ((if neg then - 1 else 1) * int (dec_value (concat groups)))
         else None)"

text \<open>Plain decimal numerals \<open>ddd\<close> and \<open>ddd.ddd\<close> with an optional minus sign; every other
  string is taken as not numeric.\<close>

definition sample_float :: "pystr \<Rightarrow> real option" where
  "sample_float s =
     (let neg = (s \<noteq> [] \<and> hd s = 45);
          body = (if neg then tl s else s);
          parts = split_on 46 body;
          ok = (\<lambda>g. g \<noteq> [] \<and> (\<forall>c \<in> set g. is_digit c))
      in (case parts of
            [a] \<Rightarrow> if ok a then Some ((if neg then - 1 else 1) * real (dec_value a)) else None
          | [a, b] \<Rightarrow>
              if ok a \<and> ok b
              then Some ((if neg then - 1 else 1) *
                         (real (dec_value a) + real (dec_value b) / 10 ^ length b))
              else None
          | _ \<Rightarrow> None))"

definition sample_lib :: pylib where
  "sample_lib =
     \<lparr> str_lower = map sample_lower,
       unidecode = (\<lambda>s. concat (map sample_translit s)),
       str_to_int = sample_int,
       str_to_float = sample_float \<rparr>"

definition good_words :: "pystr list \<Rightarrow> bool" where
  "good_words ws \<longleftrightarrow> (\<forall>w \<in> set ws. w \<noteq> [] \<and> (\<forall>c \<in> set w. \<not> is_space c))"

section \<open>Tables\<close>

text \<open>
  A \<open>DataFrame\<close> is its list of column labels and its list of rows; a row gives the cell
  of every label. Only the labels listed in \<open>columns\<close> belong to the table: a row's value
  at any other label is never read. An exception is a value of type \<open>error\<close>.
  \<open>Unmodelled\<close> marks the inputs on which pandas leaves the fragment described here
  (duplicate labels, join keys that are not strings, text in a column that is summed).
\<close>

type_synonym row = "string \<Rightarrow> cell"

record frame =
  columns :: "string list"
  rows :: "row list"

datatype error = KeyError string | ValueError | Unmodelled

datatype 'a view = NoData | Figure 'a

definition has_col :: "frame \<Rightarrow> string \<Rightarrow> bool" where
  "has_col df c \<longleftrightarrow> c \<in> set (columns df)"

text \<open>\<open>df.empty\<close>\<close>

definition frame_empty :: "frame \<Rightarrow> bool" where
  "frame_empty df \<longleftrightarrow> rows df = [] \<or> columns df = []"

text \<open>\<open>df[c] = ...\<close> with a value computed row by row\<close>

definition set_col :: "string \<Rightarrow> (row \<Rightarrow> cell) \<Rightarrow> frame \<Rightarrow> frame" where
  "set_col c f df =
     \<lparr> columns = (if c \<in> set (columns df) then columns df else columns df @ [c]),
       rows = map (\<lambda>r. r(c := f r)) (rows df) \<rparr>"

text \<open>\<open>df.rename(columns=m)\<close>: a label that is a key of \<open>m\<close> takes its new name, the
  others stay.\<close>

definition new_name :: "(string \<times> string) list \<Rightarrow> string \<Rightarrow> string" where
  "new_name m c = (case map_of m c of Some n \<Rightarrow> n | None \<Rightarrow> c)"

definition old_name :: "(string \<times> string) list \<Rightarrow> string list \<Rightarrow> string \<Rightarrow> string" where
  "old_name m cols c = (case find (\<lambda>k. new_name m k = c) cols of Some k \<Rightarrow> k | None \<Rightarrow> c)"

definition rename_cols :: "(string \<times> string) list \<Rightarrow> frame \<Rightarrow> error + frame" where
  "rename_cols m df =
     (let cols = map (new_name m) (columns df)
      in if distinct cols
         then Inr \<lparr> columns = cols,
                    rows = map (\<lambda>r c. r (old_name m (columns df) c)) (rows df) \<rparr>
         else Inl Unmodelled)"

text \<open>\<open>df.dropna(subset=cs)\<close>\<close>

definition dropna :: "string list \<Rightarrow> frame \<Rightarrow> error + frame" where
  "dropna cs df =
     (case filter (\<lambda>c. \<not> has_col df c) cs of
        [] \<Rightarrow> Inr (df\<lparr>rows := filter (\<lambda>r. list_all (\<lambda>c. r c \<noteq> NA) cs) (rows df)\<rparr>)
      | c # _ \<Rightarrow> Inl (KeyError c))"

text \<open>\<open>df[cs]\<close>\<close>

definition select_cols :: "string list \<Rightarrow> frame \<Rightarrow> frame" where
  "select_cols cs df = df\<lparr>columns := cs\<rparr>"

text \<open>\<open>pd.to_numeric(..., errors="coerce")\<close>, cell by cell\<close>

definition to_numeric :: "pylib \<Rightarrow> cell \<Rightarrow> cell" where
  "to_numeric lib v =
     (case v of
        StrV s \<Rightarrow> (case str_to_float lib s of Some x \<Rightarrow> FloatV x | None \<Rightarrow> NA)
      | _ \<Rightarrow> v)"


definition is_str :: "cell \<Rightarrow> bool" where
  "is_str v \<longleftrightarrow> (case v of StrV _ \<Rightarrow> True | _ \<Rightarrow> False)"


definition is_num :: "cell \<Rightarrow> bool" where
  "is_num v \<longleftrightarrow> (case v of StrV _ \<Rightarrow> False | _ \<Rightarrow> True)"



text \<open>The number a numeric cell contributes to a sum; a missing value is skipped.\<close>

definition num_val :: "cell \<Rightarrow> real" where
  "num_val v =
     (case v of IntV n \<Rightarrow> of_int n | FloatV x \<Rightarrow> x | BoolV b \<Rightarrow> (if b then 1 else 0) | _ \<Rightarrow> 0)"

text \<open>\<open>v == 1\<close>\<close>

definition is_one :: "cell \<Rightarrow> bool" where
  "is_one v \<longleftrightarrow> (case v of IntV n \<Rightarrow> n = 1 | FloatV x \<Rightarrow> x = 1 | BoolV b \<Rightarrow> b | _ \<Rightarrow> False)"

section \<open>The validations loader\<close>











section \<open>The stations loader\<close>

text \<open>\<open>split_geo\<close> (app.py, line 269)\<close>

definition split_geo :: "cell \<Rightarrow> cell \<times> cell" where
  "split_geo s =
     (case s of
        StrV t \<Rightarrow>
          (case split_on 44 t of
             [a, b] \<Rightarrow> (StrV (py_strip a), StrV (py_strip b))
           | _ \<Rightarrow> (NA, NA))
      | _ \<Rightarrow> (NA, NA))"

text \<open>
  Lines 283 to 291. \<open>Series.apply\<close> on a column without rows returns an empty
  \<open>Series\<close>, not a table of two columns, and the assignment to the two labels
  \<open>lat_str\<close>, \<open>lon_str\<close> then raises \<open>ValueError\<close> (columns must be same length as key).
\<close>

definition geo_columns :: "pylib \<Rightarrow> frame \<Rightarrow> error + frame" where
  "geo_columns lib df =
     (if rows df = [] then Inl ValueError
      else
        let df1 = set_col ''lat_str'' (\<lambda>r. fst (split_geo (r ''geo_point_2d''))) df;
            df2 = set_col ''lon_str'' (\<lambda>r. snd (split_geo (r ''geo_point_2d''))) df1;
            df3 = set_col ''lat'' (\<lambda>r. to_numeric lib (r ''lat_str'')) df2
        in Inr (set_col ''lon'' (\<lambda>r. to_numeric lib (r ''lon_str'')) df3))"

definition indicator_cols :: "string list" where
  "indicator_cols = [''termetro'', ''terrer'', ''tertrain'', ''tertram'', ''terval'']"

text \<open>The loop of line 299\<close>

definition fill_indicators :: "frame \<Rightarrow> frame" where
  "fill_indicators df =
     fold (\<lambda>c d. if has_col d c then d else set_col c (\<lambda>_. IntV 0) d) indicator_cols df"

text \<open>The mode names of the program: \<open>Metro\<close> (written with an acute accent), \<open>RER\<close>, \<open>Train\<close>, \<open>Tram\<close>,
  \<open>VAL\<close>, \<open>Autre\<close>.\<close>

definition mode_metro :: pystr where "mode_metro = [77, 233, 116, 114, 111]"
definition mode_rer :: pystr where "mode_rer = [82, 69, 82]"
definition mode_train :: pystr where "mode_train = [84, 114, 97, 105, 110]"
definition mode_tram :: pystr where "mode_tram = [84, 114, 97, 109]"
definition mode_val :: pystr where "mode_val = [86, 65, 76]"
definition mode_autre :: pystr where "mode_autre = [65, 117, 116, 114, 101]"

text \<open>\<open>infer_mode\<close> (app.py, line 309)\<close>

definition infer_mode :: "row \<Rightarrow> cell" where
  "infer_mode row =
     (if is_one (row ''termetro'') then StrV mode_metro
      else if is_one (row ''terrer'') then StrV mode_rer
      else if is_one (row ''tertrain'') then StrV mode_train
      else if is_one (row ''tertram'') then StrV mode_tram
      else if is_one (row ''terval'') then StrV mode_val
      else StrV mode_autre)"

text \<open>The priority order as the specification words it: the first indicator that is true
  decides, and \<open>Autre\<close> stands when none is.\<close>

definition mode_priority :: "(string \<times> pystr) list" where
  "mode_priority =
     [(''termetro'', mode_metro), (''terrer'', mode_rer), (''tertrain'', mode_train),
      (''tertram'', mode_tram), (''terval'', mode_val)]"

definition first_true_mode :: "(string \<Rightarrow> bool) \<Rightarrow> pystr" where
  "first_true_mode ind =
     (case find (\<lambda>p. ind (fst p)) mode_priority of Some p \<Rightarrow> snd p | None \<Rightarrow> mode_autre)"

definition keep_cols :: "string list" where
  "keep_cols =
     [''gare'', ''lat'', ''lon'', ''mode'', ''exploitant'',
      ''termetro'', ''terrer'', ''tertrain'', ''tertram'', ''terval'']"

text \<open>\<open>load_gares_data\<close> (app.py, line 249), from the table \<open>pd.read_csv\<close> returns\<close>

definition load_gares_data :: "pylib \<Rightarrow> frame \<Rightarrow> error + frame" where
  "load_gares_data lib df0 =
     (case (if has_col df0 ''nom_long'' then rename_cols [(''nom_long'', ''gare'')] df0
            else Inr df0) of
        Inl e \<Rightarrow> Inl e
      | Inr df1 \<Rightarrow>
          (case (if has_col df1 ''geo_point_2d'' then geo_columns lib df1 else Inr df1) of
             Inl e \<Rightarrow> Inl e
           | Inr df2 \<Rightarrow>
               let df3 = fill_indicators df2;
                   df4 = (if has_col df3 ''mode'' then df3 else set_col ''mode'' infer_mode df3);
                   df5 = select_cols (filter (has_col df4) keep_cols) df4
               in (case dropna [''gare''] df5 of
                     Inl e \<Rightarrow> Inl e
                   | Inr df6 \<Rightarrow>
                       Inr (set_col ''gare'' (\<lambda>r. StrV (clean_name lib (r ''gare''))) df6))))"

text \<open>The column that names the stations: \<open>nom_long\<close> when the source has it.\<close>

definition name_col :: "frame \<Rightarrow> string" where
  "name_col df = (if has_col df ''nom_long'' then ''nom_long'' else ''gare'')"

text \<open>A stations source the loader reads to the end: its labels are distinct, it names
  the stations in exactly one of \<open>nom_long\<close> and \<open>gare\<close>, and it has a row when it has
  the combined geo-point column.\<close>

definition stations_source :: "frame \<Rightarrow> bool" where
  "stations_source df \<longleftrightarrow>
     distinct (columns df) \<and>
     (has_col df ''nom_long'' \<or> has_col df ''gare'') \<and>
     \<not> (has_col df ''nom_long'' \<and> has_col df ''gare'') \<and>
     (rows df \<noteq> [] \<or> \<not> has_col df ''geo_point_2d'')"

text \<open>The record the loader builds from one source row, step by step as
  \<open>load_gares_data\<close> does on the whole table.\<close>

definition station_row :: "pylib \<Rightarrow> frame \<Rightarrow> row \<Rightarrow> row" where
  "station_row lib df r =
     (let r1 = r(''gare'' := r (name_col df));
          r2 = (if has_col df ''geo_point_2d''
                then r1(''lat_str'' := fst (split_geo (r ''geo_point_2d'')),
                        ''lon_str'' := snd (split_geo (r ''geo_point_2d'')),
                        ''lat'' := to_numeric lib (fst (split_geo (r ''geo_point_2d''))),
                        ''lon'' := to_numeric lib (snd (split_geo (r ''geo_point_2d''))))
                else r1);
          r3 = (\<lambda>c. if c \<in> set indicator_cols \<and> \<not> has_col df c then IntV 0 else r2 c);
          r4 = (if has_col df ''mode'' then r3 else r3(''mode'' := infer_mode r3))
      in r4(''gare'' := StrV (clean_name lib (r (name_col df)))))"

text \<open>The coordinates the loader derives from the combined text.\<close>

definition geo_pair :: "pylib \<Rightarrow> cell \<Rightarrow> cell \<times> cell" where
  "geo_pair lib s =
     (to_numeric lib (fst (split_geo s)), to_numeric lib (snd (split_geo s)))"

section \<open>The join\<close>

text \<open>\<open>df_val.merge(df_gares, on="gare", how="left")\<close> (app.py, line 393): the rows of the
  left table in their order, each one combined with every row of the right table that has
  its key, in the order of the right table, or once with missing values when none has.
  \<open>rcols\<close> are the labels the right table contributes.\<close>

definition combine_rows :: "string list \<Rightarrow> row \<Rightarrow> row \<Rightarrow> row" where
  "combine_rows rcols v g = (\<lambda>c. if c \<in> set rcols then g c else v c)"

fun match_rows :: "string list \<Rightarrow> row \<Rightarrow> row list \<Rightarrow> row list" where
  "match_rows rcols v [] = []"
| "match_rows rcols v (g # gs) =
     (if v ''gare'' = g ''gare'' then combine_rows rcols v g # match_rows rcols v gs
      else match_rows rcols v gs)"

fun left_join :: "string list \<Rightarrow> row list \<Rightarrow> row list \<Rightarrow> row list" where
  "left_join rcols [] gs = []"
| "left_join rcols (v # vs) gs =
     (case match_rows rcols v gs of
        [] \<Rightarrow> [combine_rows rcols v (\<lambda>_. NA)]
      | m # ms \<Rightarrow> m # ms) @ left_join rcols vs gs"

definition station_cols :: "frame \<Rightarrow> string list" where
  "station_cols df_gares = filter (\<lambda>c. c \<noteq> ''gare'') (columns df_gares)"

definition merge_validations_gares :: "frame \<Rightarrow> frame \<Rightarrow> error + frame" where
  "merge_validations_gares df_val df_gares =
     (if \<not> has_col df_val ''gare'' \<or> \<not> has_col df_gares ''gare'' then Inl (KeyError ''gare'')
      else if list_ex (has_col df_val) (station_cols df_gares) then Inl Unmodelled
      else if \<not> (list_all (\<lambda>r. is_str (r ''gare'')) (rows df_val) \<and>
                  list_all (\<lambda>r. is_str (r ''gare'')) (rows df_gares)) then Inl Unmodelled
      else Inr \<lparr> columns = columns df_val @ station_cols df_gares,
                 rows = left_join (station_cols df_gares) (rows df_val) (rows df_gares) \<rparr>)"

text \<open>Two tables the join accepts: both have the key, the key is a string in every row,
  and no other label is shared.\<close>

definition joinable :: "frame \<Rightarrow> frame \<Rightarrow> bool" where
  "joinable df_val df_gares \<longleftrightarrow>
     has_col df_val ''gare'' \<and> has_col df_gares ''gare'' \<and>
     \<not> list_ex (has_col df_val) (station_cols df_gares) \<and>
     list_all (\<lambda>r. is_str (r ''gare'')) (rows df_val) \<and>
     list_all (\<lambda>r. is_str (r ''gare'')) (rows df_gares)"

text \<open>The station rows that carry the key of a validation row.\<close>

definition stations_of :: "row \<Rightarrow> row list \<Rightarrow> row list" where
  "stations_of v gs = filter (\<lambda>g. g ''gare'' = v ''gare'') gs"

text \<open>The rows the join returns for one validation row.\<close>

definition join_block :: "string list \<Rightarrow> row list \<Rightarrow> row \<Rightarrow> row list" where
  "join_block rcols gs v =
     (if stations_of v gs = [] then [combine_rows rcols v (\<lambda>_. NA)]
      else map (combine_rows rcols v) (stations_of v gs))"

section \<open>The aggregations\<close>

text \<open>Grouping: the values of column \<open>c\<close> of the rows of each key, in the order of the
  rows. A row with a missing value in one of the key columns \<open>ks\<close> belongs to no group
  (\<open>groupby\<close> drops it).\<close>

fun add_val :: "'k \<Rightarrow> 'v \<Rightarrow> ('k \<times> 'v list) list \<Rightarrow> ('k \<times> 'v list) list" where
  "add_val k x [] = [(k, [x])]"
| "add_val k x (p # acc) =
     (if fst p = k then (fst p, snd p @ [x]) # acc else p # add_val k x acc)"

fun group_values ::
  "string list \<Rightarrow> string \<Rightarrow> row list \<Rightarrow> (cell list \<times> cell list) list \<Rightarrow>
   (cell list \<times> cell list) list" where
  "group_values ks c [] acc = acc"
| "group_values ks c (r # rs) acc =
     group_values ks c rs (if NA \<in> set (map r ks) then acc else add_val (map r ks) (r c) acc)"

definition groupby_sum :: "string list \<Rightarrow> string \<Rightarrow> row list \<Rightarrow> (cell list \<times> real) list" where
  "groupby_sum ks c rs =
     map (\<lambda>p. (fst p, sum_list (map num_val (snd p)))) (group_values ks c rs [])"






definition map_keys :: "string list" where
  "map_keys = [''gare'', ''lat'', ''lon'', ''mode'', ''exploitant'']"

text \<open>\<open>show_map\<close> (app.py, line 551): the total per station handed to the map, as a finite
  map from the group key to the total. The order in which the groups are listed is not
  part of the model.\<close>

definition show_map :: "frame \<Rightarrow> error + (cell list \<rightharpoonup> real) view" where
  "show_map df_merged =
     (case dropna [''lat'', ''lon''] df_merged of
        Inl e \<Rightarrow> Inl e
      | Inr df_map \<Rightarrow>
          if frame_empty df_map then Inr NoData
          else
            (case filter (\<lambda>c. \<not> has_col df_map c) (map_keys @ [''pct_validations'']) of
               c # _ \<Rightarrow> Inl (KeyError c)
             | [] \<Rightarrow>
                 if \<not> list_all (\<lambda>r. is_num (r ''pct_validations'')) (rows df_map)
                 then Inl Unmodelled
                 else Inr (Figure (map_of
                        (groupby_sum map_keys ''pct_validations'' (rows df_map))))))"

text \<open>The rows of a table that the map can place and that have a given key.\<close>

definition placed_rows :: "frame \<Rightarrow> cell list \<Rightarrow> row list" where
  "placed_rows df k =
     filter (\<lambda>r. map r map_keys = k) (filter (\<lambda>r. r ''lat'' \<noteq> NA \<and> r ''lon'' \<noteq> NA) (rows df))"

text \<open>A table the map can be drawn from: it has the five key columns and the
  percentage, and a number or a null in the percentage of every row that has both
  coordinates.\<close>

definition map_ready :: "frame \<Rightarrow> bool" where
  "map_ready df \<longleftrightarrow>
     list_all (has_col df) (map_keys @ [''pct_validations'']) \<and>
     list_all (\<lambda>r. is_num (r ''pct_validations''))
       (filter (\<lambda>r. r ''lat'' \<noteq> NA \<and> r ''lon'' \<noteq> NA) (rows df))"

definition located :: "frame \<Rightarrow> row list" where
  "located df = filter (\<lambda>r. r ''lat'' \<noteq> NA \<and> r ''lon'' \<noteq> NA) (rows df)"

section \<open>Writing concrete tables\<close>

text \<open>The code points of an ASCII literal.\<close>

definition py :: "string \<Rightarrow> pystr" where
  "py s = map of_char s"

text \<open>A row from its cells, a table from its labels and the cells of its rows, and the
  cells of a table under given labels.\<close>

definition row_of :: "(string \<times> cell) list \<Rightarrow> row" where
  "row_of al = (\<lambda>c. case map_of al c of Some v \<Rightarrow> v | None \<Rightarrow> NA)"

definition table_of :: "string list \<Rightarrow> cell list list \<Rightarrow> frame" where
  "table_of cols css = \<lparr> columns = cols, rows = map (\<lambda>cs. row_of (zip cols cs)) css \<rparr>"

definition cells :: "string list \<Rightarrow> frame \<Rightarrow> cell list list" where
  "cells cols df = map (\<lambda>r. map r cols) (rows df)"

text \<open>The cells of the table an operation returns; no row when it raises.\<close>

definition result_cells :: "string list \<Rightarrow> error + frame \<Rightarrow> cell list list" where
  "result_cells cols res = (case res of Inr df \<Rightarrow> cells cols df | Inl _ \<Rightarrow> [])"


section \<open>Properties of the string functions\<close>

lemma is_ascii_iff: "is_ascii s \<longleftrightarrow> (\<forall>c \<in> set s. c < 128)"
  by (simp add: is_ascii_def list_all_iff)

lemma has_upper_iff: "has_upper s \<longleftrightarrow> (\<exists>c \<in> set s. 65 \<le> c \<and> c \<le> 90)"
  by (simp add: has_upper_def list_ex_iff)

lemma py_split_words:
  "w \<in> set (py_split s) \<Longrightarrow> w \<noteq> [] \<and> (\<forall>c \<in> set w. \<not> is_space c \<and> c \<in> set s)"
proof (induction s arbitrary: w)
  case Nil
  then show ?case by simp
next
  case step: (Cons c cs)
  show ?case
  proof (cases "is_space c")
    case True
    with step show ?thesis by auto
  next
    case nsp: False
    show ?thesis
    proof (cases "cs = [] \<or> is_space (hd cs)")
      case True
      with nsp step show ?thesis by auto
    next
      case False
      show ?thesis
      proof (cases "py_split cs")
        case Nil
        with nsp False step.prems show ?thesis by auto
      next
        case (Cons v vs)
        have v: "v \<noteq> [] \<and> (\<forall>c \<in> set v. \<not> is_space c \<and> c \<in> set cs)"
          using step.IH [of v] Cons by simp
        have vs: "u \<noteq> [] \<and> (\<forall>c \<in> set u. \<not> is_space c \<and> c \<in> set cs)"
          if "u \<in> set vs" for u
          using step.IH [of u] Cons that by simp
        from step.prems nsp False Cons have "w = c # v \<or> w \<in> set vs" by auto
        then show ?thesis using v vs nsp by auto
      qed
    qed
  qed
qed

lemma py_split_word_append:
  "w \<noteq> [] \<Longrightarrow> \<forall>c \<in> set w. \<not> is_space c \<Longrightarrow> t = [] \<or> is_space (hd t) \<Longrightarrow>
   py_split (w @ t) = w # py_split t"
proof (induction w)
  case Nil
  then show ?case by simp
next
  case (Cons c w)
  show ?case
  proof (cases "w = []")
    case True
    with Cons.prems show ?thesis by auto
  next
    case False
    then have "py_split (w @ t) = w # py_split t" using Cons by simp
    moreover have "\<not> is_space (hd (w @ t))" using False Cons.prems by (cases w) auto
    ultimately show ?thesis using Cons.prems False by simp
  qed
qed

lemma good_words_py_split: "good_words (py_split s)"
  using py_split_words unfolding good_words_def by blast

lemma good_words_tl: "good_words (w # ws) \<Longrightarrow> good_words ws"
  by (simp add: good_words_def)

lemma is_space_32: "is_space 32"
  by (simp add: is_space_def)

lemma py_split_join: "good_words ws \<Longrightarrow> py_split (py_join [32] ws) = ws"
proof (induction ws rule: induct_list012)
  case 1
  show ?case by simp
next
  case (2 w)
  then have "py_split (w @ []) = w # py_split []"
    by (intro py_split_word_append) (auto simp: good_words_def)
  then show ?case by simp
next
  case (3 w v ws)
  have gw: "w \<noteq> []" "\<forall>c \<in> set w. \<not> is_space c" and g: "good_words (v # ws)"
    using 3(3) by (auto simp: good_words_def)
  have "py_split (w @ (32 # py_join [32] (v # ws))) = w # py_split (32 # py_join [32] (v # ws))"
    using gw by (intro py_split_word_append) (auto simp: is_space_32)
  also have "py_split (32 # py_join [32] (v # ws)) = py_split (py_join [32] (v # ws))"
    by (simp add: is_space_32)
  also have "\<dots> = v # ws" using 3(2) g by simp
  finally show ?case by simp
qed

lemma set_py_join: "set (py_join sep ws) \<subseteq> set sep \<union> \<Union> (set ` set ws)"
  by (induction sep ws rule: py_join.induct) auto

lemma py_join_Nil_iff: "good_words ws \<Longrightarrow> py_join [32] ws = [] \<longleftrightarrow> ws = []"
  by (induction ws rule: induct_list012) (auto simp: good_words_def)

lemma hd_py_join: "good_words ws \<Longrightarrow> ws \<noteq> [] \<Longrightarrow> \<not> is_space (hd (py_join [32] ws))"
  by (induction ws rule: induct_list012) (auto simp: good_words_def hd_append)

lemma last_py_join: "good_words ws \<Longrightarrow> ws \<noteq> [] \<Longrightarrow> \<not> is_space (last (py_join [32] ws))"
proof (induction ws rule: induct_list012)
  case 1
  then show ?case by simp
next
  case (2 w)
  then show ?case by (auto simp: good_words_def)
next
  case (3 w v ws)
  have g: "good_words (v # ws)" using 3(3) by (auto simp: good_words_def)
  then have ne: "py_join [32] (v # ws) \<noteq> []" using py_join_Nil_iff [OF g] by simp
  have "last (py_join [32] (w # v # ws)) = last (py_join [32] (v # ws))"
    using ne by simp
  then show ?case using 3(2) g by simp
qed

lemma has_space_run_append:
  "has_space_run (xs @ ys) \<longleftrightarrow>
     has_space_run xs \<or> has_space_run ys \<or>
     (xs \<noteq> [] \<and> ys \<noteq> [] \<and> is_space (last xs) \<and> is_space (hd ys))"
proof (induction xs rule: induct_list012)
  case 1
  show ?case by simp
next
  case (2 a)
  show ?case by (cases ys) auto
next
  case (3 a b cs)
  then show ?case by auto
qed

lemma no_space_no_run: "\<forall>c \<in> set w. \<not> is_space c \<Longrightarrow> \<not> has_space_run w"
  by (induction w rule: has_space_run.induct) auto

lemma no_run_py_join: "good_words ws \<Longrightarrow> \<not> has_space_run (py_join [32] ws)"
proof (induction ws rule: induct_list012)
  case 1
  show ?case by simp
next
  case (2 w)
  then show ?case using no_space_no_run [of w] by (auto simp: good_words_def)
next
  case (3 w v ws)
  have gw: "w \<noteq> []" "\<forall>c \<in> set w. \<not> is_space c" and g: "good_words (v # ws)"
    using 3(3) by (auto simp: good_words_def)
  have ne: "py_join [32] (v # ws) \<noteq> []" using py_join_Nil_iff [OF g] by simp
  have h: "\<not> is_space (hd (py_join [32] (v # ws)))" using hd_py_join [OF g] by simp
  have r: "\<not> has_space_run (py_join [32] (v # ws))" using 3(2) g by simp
  have "\<not> has_space_run (32 # py_join [32] (v # ws))"
    using ne h r by (cases "py_join [32] (v # ws)") auto
  moreover have "\<not> is_space (last w)" using gw by simp
  moreover have "\<not> has_space_run w" using gw by (intro no_space_no_run)
  ultimately show ?case by (simp add: has_space_run_append)
qed

lemma dropWhile_id: "xs = [] \<or> \<not> P (hd xs) \<Longrightarrow> dropWhile P xs = xs"
  by (cases xs) auto

lemma py_strip_id: "s = [] \<or> (\<not> is_space (hd s) \<and> \<not> is_space (last s)) \<Longrightarrow> py_strip s = s"
proof (cases "s = []")
  case True
  then show ?thesis by (simp add: py_strip_def)
next
  case False
  assume "s = [] \<or> (\<not> is_space (hd s) \<and> \<not> is_space (last s))"
  with False have a: "\<not> is_space (hd s)" and l: "\<not> is_space (last s)" by auto
  have "dropWhile is_space s = s" using a by (intro dropWhile_id) simp
  moreover have "dropWhile is_space (rev s) = rev s"
    using l False by (intro dropWhile_id) (simp add: hd_rev)
  ultimately show ?thesis by (simp add: py_strip_def)
qed

lemma set_py_strip: "set (py_strip s) \<subseteq> set s"
proof -
  have "set (py_strip s) \<subseteq> set (rev (dropWhile is_space s))"
    unfolding py_strip_def using set_dropWhileD by fastforce
  also have "\<dots> \<subseteq> set s" using set_dropWhileD by fastforce
  finally show ?thesis .
qed

lemma py_replace_absent: "c \<notin> set s \<Longrightarrow> py_replace c new s = s"
  by (induction s) (auto simp: py_replace_def)

lemma set_py_replace: "set (py_replace c new s) \<subseteq> (set s - {c}) \<union> set new"
  by (induction s) (auto simp: py_replace_def)

lemma map_ascii_lower_id: "\<not> has_upper s \<Longrightarrow> map ascii_lower s = s"
  by (induction s) (auto simp: has_upper_iff ascii_lower_def)

section \<open>Normalisation: what every result looks like\<close>

lemma clean_name_str:
  "clean_name lib (StrV s) =
     py_join [32] (py_split (py_replace 45 [32] (py_replace 41 []
       (py_replace 40 [] (unidecode lib (py_strip (str_lower lib s)))))))"
  by (simp add: clean_name_def)

lemma clean_name_other: "\<not> is_str x \<Longrightarrow> clean_name lib x = []"
  by (cases x) (simp_all add: clean_name_def is_str_def)

lemma punctuation_removed:
  "set (py_replace 45 [32] (py_replace 41 [] (py_replace 40 [] u)))
     \<subseteq> insert 32 (set u - {40, 41, 45})"
proof -
  have "set (py_replace 40 [] u) \<subseteq> set u - {40}"
    using set_py_replace [of 40 "[]" u] by simp
  moreover have "set (py_replace 41 [] (py_replace 40 [] u)) \<subseteq> set (py_replace 40 [] u) - {41}"
    using set_py_replace [of 41 "[]" "py_replace 40 [] u"] by simp
  moreover have "set (py_replace 45 [32] (py_replace 41 [] (py_replace 40 [] u)))
      \<subseteq> (set (py_replace 41 [] (py_replace 40 [] u)) - {45}) \<union> {32}"
    using set_py_replace [of 45 "[32]" "py_replace 41 [] (py_replace 40 [] u)"] by simp
  ultimately show ?thesis by blast
qed

lemma set_join_split: "set (py_join [32] (py_split p)) \<subseteq> insert 32 (set p)"
proof
  fix c
  assume "c \<in> set (py_join [32] (py_split p))"
  then have "c = 32 \<or> (\<exists>w \<in> set (py_split p). c \<in> set w)"
    using set_py_join [of "[32]" "py_split p"] by auto
  then show "c \<in> insert 32 (set p)" using py_split_words by blast
qed

lemma clean_name_chars:
  "set (clean_name lib (StrV s))
     \<subseteq> insert 32 (set (unidecode lib (py_strip (str_lower lib s))) - {40, 41, 45})"
  unfolding clean_name_str using set_join_split punctuation_removed by blast

lemma clean_name_words: "\<exists>ws. good_words ws \<and> clean_name lib x = py_join [32] ws"
proof (cases "is_str x")
  case True
  then obtain s where x: "x = StrV s" by (cases x) (simp_all add: is_str_def)
  define p where "p = py_replace 45 [32] (py_replace 41 []
       (py_replace 40 [] (unidecode lib (py_strip (str_lower lib s)))))"
  have "good_words (py_split p)" by (rule good_words_py_split)
  moreover have "clean_name lib x = py_join [32] (py_split p)"
    unfolding x p_def by (rule clean_name_str)
  ultimately show ?thesis by (intro exI [of _ "py_split p"] conjI)
next
  case False
  then have "clean_name lib x = py_join [32] []" by (simp add: clean_name_other)
  moreover have "good_words []" by (simp add: good_words_def)
  ultimately show ?thesis by (intro exI [of _ "[]"] conjI)
qed

lemma clean_name_fixed:
  assumes lib: "text_lib_ok lib"
    and ws: "good_words ws" and r: "r = py_join [32] ws"
    and ascii: "is_ascii r" and low: "\<not> has_upper r"
    and punct: "40 \<notin> set r" "41 \<notin> set r" "45 \<notin> set r"
  shows "clean_name lib (StrV r) = r"
proof -
  have "str_lower lib r = map ascii_lower r"
    using lib ascii by (simp add: text_lib_ok_def)
  then have l: "str_lower lib r = r" using low by (simp add: map_ascii_lower_id)
  have "r = [] \<or> (\<not> is_space (hd r) \<and> \<not> is_space (last r))"
  proof (cases "ws = []")
    case True
    then show ?thesis using r by simp
  next
    case False
    then show ?thesis using ws r hd_py_join last_py_join by simp
  qed
  then have s: "py_strip r = r" by (rule py_strip_id)
  have u: "unidecode lib r = r" using lib ascii by (simp add: text_lib_ok_def)
  have "clean_name lib (StrV r) = py_join [32] (py_split r)"
    unfolding clean_name_str by (simp add: l s u punct py_replace_absent)
  also have "\<dots> = r" using ws r by (simp add: py_split_join)
  finally show ?thesis .
qed

lemma lower_safe_result: "lower_safe lib x \<Longrightarrow> \<not> has_upper (clean_name lib x)"
proof (cases x)
  case (StrV s)
  assume "lower_safe lib x"
  with StrV have nu: "\<not> has_upper (unidecode lib (py_strip (str_lower lib s)))"
    by (simp add: lower_safe_def)
  show ?thesis
  proof
    assume "has_upper (clean_name lib x)"
    then obtain c where c: "c \<in> set (clean_name lib (StrV s))" "65 \<le> c" "c \<le> 90"
      using StrV by (auto simp: has_upper_iff)
    then have "c \<in> set (unidecode lib (py_strip (str_lower lib s)))"
      using clean_name_chars [of lib s] by auto
    with c nu show False by (auto simp: has_upper_iff)
  qed
qed (simp_all add: clean_name_def has_upper_def)

lemma ascii_lower_safe:
  assumes lib: "text_lib_ok lib" and x: "is_ascii_cell x"
  shows "lower_safe lib x"
proof (cases x)
  case (StrV s)
  with x have a: "is_ascii s" by (simp add: is_ascii_cell_def)
  then have l: "str_lower lib s = map ascii_lower s" using lib by (simp add: text_lib_ok_def)
  have la: "is_ascii (map ascii_lower s)" using a by (auto simp: is_ascii_iff ascii_lower_def)
  have lu: "\<not> has_upper (map ascii_lower s)" by (auto simp: has_upper_iff ascii_lower_def)
  have sub: "set (py_strip (map ascii_lower s)) \<subseteq> set (map ascii_lower s)"
    by (rule set_py_strip)
  have sa: "is_ascii (py_strip (map ascii_lower s))"
    using la sub unfolding is_ascii_iff by blast
  have su: "\<not> has_upper (py_strip (map ascii_lower s))"
    using lu sub unfolding has_upper_iff by blast
  have "unidecode lib (py_strip (map ascii_lower s)) = py_strip (map ascii_lower s)"
    using lib sa by (simp add: text_lib_ok_def)
  then show ?thesis using StrV l su by (simp add: lower_safe_def)
qed (simp_all add: lower_safe_def)

lemma clean_name_ascii: "text_lib_ok lib \<Longrightarrow> is_ascii (clean_name lib x)"
proof (cases x)
  case (StrV s)
  assume "text_lib_ok lib"
  then have "is_ascii (unidecode lib (py_strip (str_lower lib s)))"
    by (simp add: text_lib_ok_def)
  then show ?thesis using StrV clean_name_chars [of lib s] unfolding is_ascii_iff by auto
qed (simp_all add: clean_name_def is_ascii_def)

lemma clean_name_punct:
  "40 \<notin> set (clean_name lib x) \<and> 41 \<notin> set (clean_name lib x) \<and> 45 \<notin> set (clean_name lib x)"
proof (cases x)
  case (StrV s)
  then show ?thesis using clean_name_chars [of lib s] by auto
qed (simp_all add: clean_name_def)

lemma clean_name_no_run: "\<not> has_space_run (clean_name lib x)"
  using clean_name_words [of lib x] no_run_py_join by auto

lemma sample_translit_ascii: "c < 128 \<Longrightarrow> sample_translit c = [c]"
  by (simp add: sample_translit_def)

lemma sample_translit_is_ascii: "is_ascii (sample_translit c)"
  by (simp add: sample_translit_def is_ascii_def)

lemma sample_lower_ascii: "c < 128 \<Longrightarrow> sample_lower c = ascii_lower c"
  by (simp add: sample_lower_def ascii_lower_def)

lemma text_lib_ok_sample: "text_lib_ok sample_lib"
proof -
  have t: "concat (map sample_translit s) = s" if "is_ascii s" for s
    using that by (induction s) (simp_all add: is_ascii_iff sample_translit_ascii)
  have l: "map sample_lower s = map ascii_lower s" if "is_ascii s" for s
    using that by (induction s) (simp_all add: is_ascii_iff sample_lower_ascii)
  have a: "is_ascii (concat (map sample_translit s))" for s
    using sample_translit_is_ascii by (induction s) (auto simp: is_ascii_iff)
  show ?thesis using t l a by (simp add: text_lib_ok_def sample_lib_def)
qed

text \<open>
  Claim C1, as amended. With a runtime that treats ASCII text as Python and the
  transliteration library do, every result of \<open>clean_name\<close> is ASCII text (so without
  diacritics) that holds no parenthesis, no hyphen and no two adjacent whitespace
  characters. Whenever the transliteration step leaves no capital letter, which is so for
  every value that is not a string and for every ASCII string, the result has no capital
  letter and normalising it again returns it unchanged.
\<close>

theorem clean_name_normal_form:
  assumes "text_lib_ok lib"
  shows "is_ascii (clean_name lib x) \<and>
         40 \<notin> set (clean_name lib x) \<and> 41 \<notin> set (clean_name lib x) \<and>
         45 \<notin> set (clean_name lib x) \<and>
         \<not> has_space_run (clean_name lib x) \<and>
         (lower_safe lib x \<or> is_ascii_cell x \<longrightarrow>
            \<not> has_upper (clean_name lib x) \<and>
            clean_name lib (StrV (clean_name lib x)) = clean_name lib x)"
proof -
  have safe: "\<not> has_upper (clean_name lib x) \<and>
      clean_name lib (StrV (clean_name lib x)) = clean_name lib x"
    if "lower_safe lib x \<or> is_ascii_cell x"
  proof -
    from that assms have ls: "lower_safe lib x" using ascii_lower_safe by blast
    then have nu: "\<not> has_upper (clean_name lib x)" by (rule lower_safe_result)
    obtain ws where ws: "good_words ws" "clean_name lib x = py_join [32] ws"
      using clean_name_words by blast
    have a: "is_ascii (clean_name lib x)" using assms by (rule clean_name_ascii)
    have p: "40 \<notin> set (clean_name lib x)" "41 \<notin> set (clean_name lib x)"
      "45 \<notin> set (clean_name lib x)"
      using clean_name_punct [of lib x] by blast+
    have "clean_name lib (StrV (clean_name lib x)) = clean_name lib x"
      using assms ws(1) ws(2) a nu p by (rule clean_name_fixed)
    with nu show ?thesis by simp
  qed
  show ?thesis
    using clean_name_ascii [OF assms] clean_name_punct [of lib x] clean_name_no_run [of lib x] safe
    by blast
qed

text \<open>The amended claim at the station name \<open>E\<close>(acute)\<open>vry-Val (D)\<close>, whose key is
  \<open>evry val d\<close>.\<close>

theorem clean_name_normal_form_witness:
  "text_lib_ok sample_lib \<and>
   lower_safe sample_lib (StrV [201, 118, 114, 121, 45, 86, 97, 108, 32, 40, 68, 41]) \<and>
   clean_name sample_lib (StrV [201, 118, 114, 121, 45, 86, 97, 108, 32, 40, 68, 41])
     = [101, 118, 114, 121, 32, 118, 97, 108, 32, 100] \<and>
   clean_name sample_lib (StrV [101, 118, 114, 121, 32, 118, 97, 108, 32, 100])
     = [101, 118, 114, 121, 32, 118, 97, 108, 32, 100] \<and>
   \<not> has_upper [101, 118, 114, 121, 32, 118, 97, 108, 32, 100]"
proof -
  let ?x = "StrV [201, 118, 114, 121, 45, 86, 97, 108, 32, 40, 68, 41]"
  have v: "clean_name sample_lib ?x = [101, 118, 114, 121, 32, 118, 97, 108, 32, 100]"
    by code_simp
  have s: "lower_safe sample_lib ?x"
    by code_simp
  have "\<not> has_upper (clean_name sample_lib ?x) \<and>
      clean_name sample_lib (StrV (clean_name sample_lib ?x)) = clean_name sample_lib ?x"
    using clean_name_normal_form [OF text_lib_ok_sample, of ?x] s by blast
  then show ?thesis using v s text_lib_ok_sample by simp
qed

text \<open>
  Claim C1 as stated fails. The two ideographs U+5317 U+4EB0 have no lower case and the
  transliteration writes them \<open>Bei Jing\<close>: the result holds capital letters, and
  normalising it again gives \<open>bei jing\<close>.
\<close>

theorem clean_name_not_idempotent:
  "clean_name sample_lib (StrV [21271, 20144]) = [66, 101, 105, 32, 74, 105, 110, 103] \<and>
   has_upper (clean_name sample_lib (StrV [21271, 20144])) \<and>
   clean_name sample_lib (StrV (clean_name sample_lib (StrV [21271, 20144])))
     = [98, 101, 105, 32, 106, 105, 110, 103] \<and>
   clean_name sample_lib (StrV (clean_name sample_lib (StrV [21271, 20144])))
     \<noteq> clean_name sample_lib (StrV [21271, 20144])"
proof -
  have a: "clean_name sample_lib (StrV [21271, 20144]) = [66, 101, 105, 32, 74, 105, 110, 103]"
    by code_simp
  have b: "clean_name sample_lib (StrV [66, 101, 105, 32, 74, 105, 110, 103])
      = [98, 101, 105, 32, 106, 105, 110, 103]"
    by code_simp
  have c: "has_upper [66, 101, 105, 32, 74, 105, 110, 103]"
    by code_simp
  show ?thesis unfolding a b using c by simp
qed

section \<open>Properties of the table operations\<close>

lemma find_unique:
  assumes "x \<in> set xs" and "P x" and "\<And>y. y \<in> set xs \<Longrightarrow> P y \<Longrightarrow> y = x"
  shows "find P xs = Some x"
  using assms
proof (induction xs)
  case Nil
  then show ?case by simp
next
  case (Cons a xs)
  show ?case
  proof (cases "P a")
    case True
    then have "a = x" using Cons.prems(3) [of a] by simp
    with True show ?thesis by simp
  next
    case False
    then have "x \<in> set xs" using Cons.prems(1,2) by auto
    moreover have "y = x" if "y \<in> set xs" "P y" for y
      using Cons.prems(3) [of y] that by simp
    ultimately have "find P xs = Some x" using Cons.IH Cons.prems(2) by blast
    with False show ?thesis by simp
  qed
qed

lemma find_none: "(\<And>y. y \<in> set xs \<Longrightarrow> \<not> P y) \<Longrightarrow> find P xs = None"
  by (induction xs) auto

lemma old_name_new_name:
  assumes "k \<in> set cols" and "inj_on (new_name m) (set cols)"
  shows "old_name m cols (new_name m k) = k"
proof -
  have "find (\<lambda>j. new_name m j = new_name m k) cols = Some k"
    using assms by (intro find_unique) (auto dest: inj_onD)
  then show ?thesis by (simp add: old_name_def)
qed

lemma old_name_fresh:
  assumes "c \<notin> new_name m ` set cols"
  shows "old_name m cols c = c"
proof -
  have "find (\<lambda>j. new_name m j = c) cols = None"
    using assms by (intro find_none) auto
  then show ?thesis by (simp add: old_name_def)
qed

lemma rename_cols_inj:
  assumes "distinct (columns df)" and "inj_on (new_name m) (set (columns df))"
  shows "rename_cols m df =
     Inr \<lparr> columns = map (new_name m) (columns df),
           rows = map (\<lambda>r c. r (old_name m (columns df) c)) (rows df) \<rparr>"
  using assms by (simp add: rename_cols_def distinct_map)







section \<open>The validations loader: which rows it returns\<close>












section \<open>The stations loader: which rows it returns\<close>

lemma new_name_gares:
  "new_name [(''nom_long'', ''gare'')] c = (if c = ''nom_long'' then ''gare'' else c)"
  by (simp add: new_name_def)

lemma gares_rename:
  assumes d: "distinct (columns df)" and n: "''nom_long'' \<in> set (columns df)"
    and g: "''gare'' \<notin> set (columns df)"
  shows "rename_cols [(''nom_long'', ''gare'')] df =
     Inr \<lparr> columns = map (\<lambda>c. if c = ''nom_long'' then ''gare'' else c) (columns df),
           rows = map (\<lambda>r. r(''gare'' := r ''nom_long'')) (rows df) \<rparr>"
proof -
  let ?m = "[(''nom_long'', ''gare'')]"
  have inj: "inj_on (new_name ?m) (set (columns df))"
  proof (rule inj_on_inverseI [where g = "\<lambda>c. if c = ''gare'' then ''nom_long'' else c"])
    fix a
    assume "a \<in> set (columns df)"
    then have "a \<noteq> ''gare''" using g by blast
    then show "(if new_name ?m a = ''gare'' then ''nom_long'' else new_name ?m a) = a"
      by (simp add: new_name_gares)
  qed
  have old: "old_name ?m (columns df) c = (if c = ''gare'' then ''nom_long'' else c)" for c
  proof (cases "c = ''gare''")
    case True
    then show ?thesis using old_name_new_name [OF n inj] by (simp add: new_name_gares)
  next
    case False
    show ?thesis
    proof (cases "c \<in> set (columns df) \<and> c \<noteq> ''nom_long''")
      case True
      then have "old_name ?m (columns df) (new_name ?m c) = c"
        using old_name_new_name [OF _ inj, of c] by simp
      then show ?thesis using True False by (simp add: new_name_gares)
    next
      case nc: False
      have "c \<notin> new_name ?m ` set (columns df)"
      proof
        assume "c \<in> new_name ?m ` set (columns df)"
        then obtain k where k: "k \<in> set (columns df)" "c = new_name ?m k" by blast
        show False
        proof (cases "k = ''nom_long''")
          case True
          with k False show False by (simp add: new_name_gares)
        next
          case kn: False
          then have "c = k" using k by (simp add: new_name_gares)
          with k kn nc show False by simp
        qed
      qed
      then have "old_name ?m (columns df) c = c" by (rule old_name_fresh)
      with False show ?thesis by simp
    qed
  qed
  have r: "map (\<lambda>r c. r (old_name ?m (columns df) c)) (rows df)
      = map (\<lambda>r. r(''gare'' := r ''nom_long'')) (rows df)"
    by (rule map_cong [OF refl]) (simp add: old fun_eq_iff)
  have c: "map (new_name ?m) (columns df)
      = map (\<lambda>c. if c = ''nom_long'' then ''gare'' else c) (columns df)"
    by (rule map_cong [OF refl]) (simp add: new_name_gares)
  show ?thesis unfolding rename_cols_inj [OF d inj] r c by (rule refl)
qed

lemma stations_first_step:
  assumes "stations_source df"
  shows "(if has_col df ''nom_long'' then rename_cols [(''nom_long'', ''gare'')] df else Inr df)
     = Inr \<lparr> columns = map (\<lambda>c. if c = ''nom_long'' then ''gare'' else c) (columns df),
             rows = map (\<lambda>r. r(''gare'' := r (name_col df))) (rows df) \<rparr>"
proof (cases "has_col df ''nom_long''")
  case True
  then have "''nom_long'' \<in> set (columns df)" "''gare'' \<notin> set (columns df)"
    "distinct (columns df)"
    using assms by (simp_all add: stations_source_def has_col_def)
  then show ?thesis using True gares_rename [of df] by (simp add: name_col_def)
next
  case False
  then have "map (\<lambda>c. if c = ''nom_long'' then ''gare'' else c) (columns df) = columns df"
    by (intro map_idI) (auto simp: has_col_def)
  moreover have "map (\<lambda>r. r(''gare'' := r ''gare'')) (rows df) = rows df"
    by (intro map_idI) simp
  ultimately show ?thesis using False by (simp add: name_col_def)
qed

lemma rows_set_col: "rows (set_col c f d) = map (\<lambda>r. r(c := f r)) (rows d)"
  by (simp add: set_col_def)

lemma has_col_set_col: "has_col (set_col c f d) x \<longleftrightarrow> has_col d x \<or> x = c"
  by (auto simp: has_col_def set_col_def)

lemma fill_step_rows:
  "rows (fold (\<lambda>c d. if has_col d c then d else set_col c (\<lambda>_. IntV 0) d) cs d)
     = map (\<lambda>r c. if c \<in> set cs \<and> \<not> has_col d c then IntV 0 else r c) (rows d)"
proof (induction cs arbitrary: d)
  case Nil
  show ?case by simp
next
  case (Cons a cs)
  show ?case
  proof (cases "has_col d a")
    case True
    have "(\<lambda>r c. if c \<in> set (a # cs) \<and> \<not> has_col d c then IntV 0 else r c)
        = (\<lambda>r c. if c \<in> set cs \<and> \<not> has_col d c then IntV 0 else r c)"
      using True by (intro ext) auto
    then show ?thesis using True Cons.IH [of d] by simp
  next
    case False
    let ?d = "set_col a (\<lambda>_. IntV 0) d"
    have "rows (fold (\<lambda>c d. if has_col d c then d else set_col c (\<lambda>_. IntV 0) d) cs ?d)
        = map (\<lambda>r c. if c \<in> set cs \<and> \<not> has_col ?d c then IntV 0 else r c) (rows ?d)"
      by (rule Cons.IH)
    also have "\<dots> = map (\<lambda>r c. if c \<in> set (a # cs) \<and> \<not> has_col d c then IntV 0 else r c)
        (rows d)"
      using False by (auto simp: rows_set_col has_col_set_col fun_eq_iff)
    finally show ?thesis using False by simp
  qed
qed

lemma fill_step_cols:
  "set (columns (fold (\<lambda>c d. if has_col d c then d else set_col c (\<lambda>_. IntV 0) d) cs d))
     = set (columns d) \<union> set cs"
proof (induction cs arbitrary: d)
  case Nil
  show ?case by simp
next
  case (Cons a cs)
  show ?case using Cons.IH [of d] Cons.IH [of "set_col a (\<lambda>_. IntV 0) d"]
    by (auto simp: has_col_def set_col_def)
qed

lemma fill_indicators_rows:
  "rows (fill_indicators d)
     = map (\<lambda>r c. if c \<in> set indicator_cols \<and> \<not> has_col d c then IntV 0 else r c) (rows d)"
  unfolding fill_indicators_def by (rule fill_step_rows)

lemma fill_indicators_has_col:
  "has_col (fill_indicators d) c \<longleftrightarrow> has_col d c \<or> c \<in> set indicator_cols"
  using fill_step_cols [of indicator_cols d] by (simp add: fill_indicators_def has_col_def)

lemma has_col_first_step:
  assumes "stations_source df" and "x \<noteq> ''nom_long''" and "x \<noteq> ''gare''"
  shows "x \<in> set (map (\<lambda>c. if c = ''nom_long'' then ''gare'' else c) (columns df))
           \<longleftrightarrow> has_col df x"
  using assms(2,3) by (auto simp: has_col_def)

lemma has_gare_first_step:
  assumes "stations_source df"
  shows "''gare'' \<in> set (map (\<lambda>c. if c = ''nom_long'' then ''gare'' else c) (columns df))"
proof (cases "has_col df ''nom_long''")
  case True
  then have "''nom_long'' \<in> set (columns df)" by (simp add: has_col_def)
  then have "(if ''nom_long'' = ''nom_long'' then ''gare'' else ''nom_long'')
      \<in> (\<lambda>c. if c = ''nom_long'' then ''gare'' else c) ` set (columns df)"
    by (rule imageI)
  then show ?thesis by simp
next
  case False
  then have "''gare'' \<in> set (columns df)"
    using assms by (simp add: stations_source_def has_col_def)
  then have "(if ''gare'' = ''nom_long'' then ''gare'' else ''gare'')
      \<in> (\<lambda>c. if c = ''nom_long'' then ''gare'' else c) ` set (columns df)"
    by (rule imageI)
  then show ?thesis by simp
qed

lemma load_gares_rows:
  assumes src: "stations_source df"
  shows "\<exists>out. load_gares_data lib df = Inr out \<and> has_col out ''gare'' \<and>
           rows out = map (station_row lib df) (filter (\<lambda>r. r (name_col df) \<noteq> NA) (rows df))"
proof -
  define f1 :: "row \<Rightarrow> row" where "f1 = (\<lambda>r. r(''gare'' := r (name_col df)))"
  define f2 :: "row \<Rightarrow> row" where "f2 = (\<lambda>r. if has_col df ''geo_point_2d''
       then (f1 r)(''lat_str'' := fst (split_geo (r ''geo_point_2d'')),
                   ''lon_str'' := snd (split_geo (r ''geo_point_2d'')),
                   ''lat'' := to_numeric lib (fst (split_geo (r ''geo_point_2d''))),
                   ''lon'' := to_numeric lib (snd (split_geo (r ''geo_point_2d''))))
       else f1 r)"
  define f3 :: "row \<Rightarrow> row" where "f3 = (\<lambda>r c.
       if c \<in> set indicator_cols \<and> \<not> has_col df c then IntV 0 else f2 r c)"
  define f4 :: "row \<Rightarrow> row" where "f4 = (\<lambda>r.
       if has_col df ''mode'' then f3 r else (f3 r)(''mode'' := infer_mode (f3 r)))"
  define c1 where "c1 = map (\<lambda>c. if c = ''nom_long'' then ''gare'' else c) (columns df)"
  define df1 where "df1 = \<lparr> columns = c1, rows = map f1 (rows df) \<rparr>"
  have s1: "(if has_col df ''nom_long'' then rename_cols [(''nom_long'', ''gare'')] df
             else Inr df) = Inr df1"
    using stations_first_step [OF src] by (simp add: df1_def c1_def f1_def)
  have h1: "has_col df1 x \<longleftrightarrow> has_col df x" if "x \<noteq> ''nom_long''" "x \<noteq> ''gare''" for x
    using has_col_first_step [OF src that] by (simp add: df1_def c1_def has_col_def)
  have g1: "has_col df1 ''gare''"
    using has_gare_first_step [OF src] by (simp add: df1_def c1_def has_col_def)
  have geo1: "has_col df1 ''geo_point_2d'' \<longleftrightarrow> has_col df ''geo_point_2d''"
    by (rule h1) simp_all
  have f1_geo: "f1 r ''geo_point_2d'' = r ''geo_point_2d''" for r
    by (simp add: f1_def)
  define df2 where "df2 = (if has_col df ''geo_point_2d''
       then set_col ''lon'' (\<lambda>r. to_numeric lib (r ''lon_str''))
             (set_col ''lat'' (\<lambda>r. to_numeric lib (r ''lat_str''))
               (set_col ''lon_str'' (\<lambda>r. snd (split_geo (r ''geo_point_2d'')))
                 (set_col ''lat_str'' (\<lambda>r. fst (split_geo (r ''geo_point_2d''))) df1)))
       else df1)"
  have ne: "rows df1 \<noteq> []" if "has_col df ''geo_point_2d''"
    using that src by (auto simp: stations_source_def df1_def)
  have s2: "(if has_col df1 ''geo_point_2d'' then geo_columns lib df1 else Inr df1) = Inr df2"
    using ne by (simp add: geo1 geo_columns_def df2_def Let_def)
  have r2: "rows df2 = map f2 (rows df)"
    by (simp add: df2_def rows_set_col df1_def f2_def f1_geo comp_def)
  have h2: "has_col df2 x \<longleftrightarrow> has_col df1 x \<or>
      (has_col df ''geo_point_2d'' \<and> x \<in> {''lat_str'', ''lon_str'', ''lat'', ''lon''})" for x
    by (auto simp: df2_def has_col_set_col)
  have ind2: "has_col df2 c \<longleftrightarrow> has_col df c" if "c \<in> set indicator_cols" for c
  proof -
    have "c \<noteq> ''nom_long''" "c \<noteq> ''gare''" "c \<notin> {''lat_str'', ''lon_str'', ''lat'', ''lon''}"
      using that by (auto simp: indicator_cols_def)
    then show ?thesis using h1 [of c] h2 [of c] by simp
  qed
  have r3: "rows (fill_indicators df2) = map f3 (rows df)"
    unfolding fill_indicators_rows r2 map_map comp_def f3_def
    by (rule map_cong [OF refl]) (auto simp: fun_eq_iff ind2)
  have m3: "has_col (fill_indicators df2) ''mode'' \<longleftrightarrow> has_col df ''mode''"
    using h1 [of "''mode''"] h2 [of "''mode''"]
    by (simp add: fill_indicators_has_col indicator_cols_def)
  have g3: "has_col (fill_indicators df2) ''gare''"
    using g1 h2 [of "''gare''"] by (simp add: fill_indicators_has_col)
  define df4 where "df4 = (if has_col (fill_indicators df2) ''mode'' then fill_indicators df2
       else set_col ''mode'' infer_mode (fill_indicators df2))"
  have r4: "rows df4 = map f4 (rows df)"
    by (simp add: df4_def m3 rows_set_col r3 f4_def comp_def)
  have g4: "has_col df4 ''gare''"
    using g3 by (simp add: df4_def has_col_set_col)
  define df5 where "df5 = select_cols (filter (has_col df4) keep_cols) df4"
  have g5: "has_col df5 ''gare''"
    using g4 by (simp add: df5_def select_cols_def has_col_def keep_cols_def)
  have r5: "rows df5 = map f4 (rows df)"
    by (simp add: df5_def select_cols_def r4)
  define df6 where "df6 = df5\<lparr>rows := filter (\<lambda>r. r ''gare'' \<noteq> NA) (rows df5)\<rparr>"
  have s5: "dropna [''gare''] df5 = Inr df6"
    using g5 by (simp add: dropna_def df6_def)
  define out where "out = set_col ''gare'' (\<lambda>r. StrV (clean_name lib (r ''gare''))) df6"
  have load: "load_gares_data lib df = Inr out"
    unfolding load_gares_data_def s1
    by (simp add: s2 Let_def df4_def [symmetric] df5_def [symmetric] s5 out_def)
  have f4_gare: "f4 r ''gare'' = r (name_col df)" for r
    by (simp add: f4_def f3_def f2_def f1_def indicator_cols_def)
  have sr: "station_row lib df r = (f4 r)(''gare'' := StrV (clean_name lib (r (name_col df))))"
    for r
    unfolding station_row_def Let_def f4_def f3_def f2_def f1_def by (rule refl)
  have "rows out = map (\<lambda>r. r(''gare'' := StrV (clean_name lib (r ''gare''))))
      (filter (\<lambda>r. r ''gare'' \<noteq> NA) (map f4 (rows df)))"
    by (simp add: out_def rows_set_col df6_def r5)
  also have "\<dots> = map (station_row lib df) (filter (\<lambda>r. r (name_col df) \<noteq> NA) (rows df))"
    by (simp add: filter_map comp_def f4_gare sr)
  finally have rows: "rows out
      = map (station_row lib df) (filter (\<lambda>r. r (name_col df) \<noteq> NA) (rows df))" .
  have "has_col out ''gare''"
    using g5 by (simp add: out_def has_col_set_col)
  with load rows show ?thesis by blast
qed

lemma station_row_gare:
  "station_row lib df r ''gare'' = StrV (clean_name lib (r (name_col df)))"
  by (simp add: station_row_def Let_def)

lemma station_row_lat_lon:
  assumes "has_col df ''geo_point_2d''"
  shows "station_row lib df r ''lat'' = fst (geo_pair lib (r ''geo_point_2d''))"
    and "station_row lib df r ''lon'' = snd (geo_pair lib (r ''geo_point_2d''))"
  using assms by (simp_all add: station_row_def Let_def indicator_cols_def geo_pair_def)

lemma infer_mode_first_true:
  "infer_mode row = StrV (first_true_mode (\<lambda>c. is_one (row c)))"
  by (simp add: infer_mode_def first_true_mode_def mode_priority_def)

lemma station_row_mode:
  assumes "\<not> has_col df ''mode''"
  shows "station_row lib df r ''mode''
           = StrV (first_true_mode (\<lambda>c. has_col df c \<and> is_one (r c)))"
proof -
  define r3 :: row where "r3 = (\<lambda>c. if c \<in> set indicator_cols \<and> \<not> has_col df c then IntV 0
      else (if has_col df ''geo_point_2d''
            then r(''gare'' := r (name_col df),
                   ''lat_str'' := fst (split_geo (r ''geo_point_2d'')),
                   ''lon_str'' := snd (split_geo (r ''geo_point_2d'')),
                   ''lat'' := to_numeric lib (fst (split_geo (r ''geo_point_2d''))),
                   ''lon'' := to_numeric lib (snd (split_geo (r ''geo_point_2d''))))
            else r(''gare'' := r (name_col df))) c)"
  have m: "station_row lib df r ''mode'' = infer_mode r3"
    using assms by (simp add: station_row_def Let_def r3_def)
  have i: "is_one (r3 c) \<longleftrightarrow> has_col df c \<and> is_one (r c)" if "c \<in> set indicator_cols" for c
    using that by (auto simp: r3_def indicator_cols_def is_one_def)
  have "first_true_mode (\<lambda>c. is_one (r3 c))
      = first_true_mode (\<lambda>c. has_col df c \<and> is_one (r c))"
    using i by (simp add: first_true_mode_def mode_priority_def indicator_cols_def)
  then show ?thesis using m by (simp add: infer_mode_first_true)
qed

lemma station_row_indicator:
  assumes "c \<in> set indicator_cols"
  shows "station_row lib df r c = (if has_col df c then r c else IntV 0)"
  using assms by (auto simp: station_row_def Let_def indicator_cols_def)

text \<open>
  Claim C3. On a stations source without a \<open>mode\<close> column the loader does not fail for
  want of an indicator column, and the mode of every record is the first of
  \<open>Metro\<close>, \<open>RER\<close>, \<open>Train\<close>, \<open>Tram\<close>, \<open>VAL\<close> whose indicator column exists and
  holds 1 in the source row, \<open>Autre\<close> when there is none; an indicator column the source
  lacks holds 0 in every record. \<open>infer_mode\<close> itself returns the first mode in that
  order whose indicator is 1.
\<close>

theorem load_gares_mode_priority:
  assumes "stations_source df" and "\<not> has_col df ''mode''"
  shows "(\<exists>out. load_gares_data lib df = Inr out \<and>
            cells (''mode'' # indicator_cols) out
              = map (\<lambda>r. StrV (first_true_mode (\<lambda>c. has_col df c \<and> is_one (r c)))
                          # map (\<lambda>c. if has_col df c then r c else IntV 0) indicator_cols)
                  (filter (\<lambda>r. r (name_col df) \<noteq> NA) (rows df))) \<and>
         (\<forall>row. infer_mode row = StrV (first_true_mode (\<lambda>c. is_one (row c))))"
proof -
  obtain out where out: "load_gares_data lib df = Inr out"
    "rows out = map (station_row lib df) (filter (\<lambda>r. r (name_col df) \<noteq> NA) (rows df))"
    using load_gares_rows [OF assms(1), of lib] by blast
  have "cells (''mode'' # indicator_cols) out
      = map (\<lambda>r. StrV (first_true_mode (\<lambda>c. has_col df c \<and> is_one (r c)))
                  # map (\<lambda>c. if has_col df c then r c else IntV 0) indicator_cols)
          (filter (\<lambda>r. r (name_col df) \<noteq> NA) (rows df))"
    unfolding cells_def out(2) map_map comp_def
    by (rule map_cong [OF refl])
       (simp add: station_row_mode [OF assms(2)] station_row_indicator)
  with out(1) infer_mode_first_true show ?thesis by blast
qed

text \<open>Claim C3 on a source that has only the indicators \<open>termetro\<close> and \<open>terrer\<close>: a row
  with \<open>termetro\<close> = 1 is \<open>Metro\<close> even when \<open>terrer\<close> is 1 too, a row with \<open>terrer\<close> = 1
  alone is \<open>RER\<close>, a row with neither is \<open>Autre\<close>.\<close>

theorem load_gares_mode_priority_witness:
  "stations_source (table_of [''nom_long'', ''termetro'', ''terrer'']
     [[StrV (py ''A''), IntV 1, IntV 1], [StrV (py ''B''), IntV 0, IntV 1],
      [StrV (py ''C''), IntV 0, IntV 0]]) \<and>
   \<not> has_col (table_of [''nom_long'', ''termetro'', ''terrer'']
     [[StrV (py ''A''), IntV 1, IntV 1], [StrV (py ''B''), IntV 0, IntV 1],
      [StrV (py ''C''), IntV 0, IntV 0]]) ''mode'' \<and>
   (\<exists>out. load_gares_data sample_lib (table_of [''nom_long'', ''termetro'', ''terrer'']
     [[StrV (py ''A''), IntV 1, IntV 1], [StrV (py ''B''), IntV 0, IntV 1],
      [StrV (py ''C''), IntV 0, IntV 0]]) = Inr out \<and>
     cells (''mode'' # indicator_cols) out
       = [[StrV mode_metro, IntV 1, IntV 1, IntV 0, IntV 0, IntV 0],
          [StrV mode_rer, IntV 0, IntV 1, IntV 0, IntV 0, IntV 0],
          [StrV mode_autre, IntV 0, IntV 0, IntV 0, IntV 0, IntV 0]])"
proof -
  let ?df = "table_of [''nom_long'', ''termetro'', ''terrer'']
     [[StrV (py ''A''), IntV 1, IntV 1], [StrV (py ''B''), IntV 0, IntV 1],
      [StrV (py ''C''), IntV 0, IntV 0]]"
  have src: "stations_source ?df"
    by code_simp
  have nm: "\<not> has_col ?df ''mode''"
    by code_simp
  have v: "map (\<lambda>r. StrV (first_true_mode (\<lambda>c. has_col ?df c \<and> is_one (r c)))
                  # map (\<lambda>c. if has_col ?df c then r c else IntV 0) indicator_cols)
          (filter (\<lambda>r. r (name_col ?df) \<noteq> NA) (rows ?df))
      = [[StrV mode_metro, IntV 1, IntV 1, IntV 0, IntV 0, IntV 0],
         [StrV mode_rer, IntV 0, IntV 1, IntV 0, IntV 0, IntV 0],
         [StrV mode_autre, IntV 0, IntV 0, IntV 0, IntV 0, IntV 0]]"
    by code_simp
  have "\<exists>out. load_gares_data sample_lib ?df = Inr out \<and>
      cells (''mode'' # indicator_cols) out
        = map (\<lambda>r. StrV (first_true_mode (\<lambda>c. has_col ?df c \<and> is_one (r c)))
                    # map (\<lambda>c. if has_col ?df c then r c else IntV 0) indicator_cols)
            (filter (\<lambda>r. r (name_col ?df) \<noteq> NA) (rows ?df))"
    using load_gares_mode_priority [OF src nm, of sample_lib] by blast
  then show ?thesis unfolding v using src nm by blast
qed

lemma geo_pair_other: "\<not> is_str v \<Longrightarrow> geo_pair lib v = (NA, NA)"
  by (cases v) (simp_all add: geo_pair_def split_geo_def to_numeric_def is_str_def)

lemma geo_pair_two:
  "split_on 44 t = [a, b] \<Longrightarrow>
   geo_pair lib (StrV t) = (to_numeric lib (StrV (py_strip a)), to_numeric lib (StrV (py_strip b)))"
  by (simp add: geo_pair_def split_geo_def)

lemma geo_pair_not_two:
  assumes "length (split_on 44 t) \<noteq> 2"
  shows "geo_pair lib (StrV t) = (NA, NA)"
proof -
  have "split_geo (StrV t) = (NA, NA)"
    using assms by (auto simp: split_geo_def split: list.splits)
  then show ?thesis by (simp add: geo_pair_def to_numeric_def)
qed

text \<open>
  Claim C5, as amended. On a stations source with the combined geo-point column, the
  coordinates of every record are derived from the text of its source row: both are null
  when the value is missing or not a string, or when splitting it on commas does not give
  exactly two parts; when it gives two parts, each coordinate is the numeric coercion of
  its own trimmed part, null when that part is not a number, whatever the other part is.
\<close>

theorem load_gares_coordinates:
  assumes "stations_source df" and "has_col df ''geo_point_2d''"
  shows "(\<exists>out. load_gares_data lib df = Inr out \<and>
            cells [''lat'', ''lon''] out
              = map (\<lambda>r. [fst (geo_pair lib (r ''geo_point_2d'')),
                          snd (geo_pair lib (r ''geo_point_2d''))])
                  (filter (\<lambda>r. r (name_col df) \<noteq> NA) (rows df))) \<and>
         (\<forall>v. \<not> is_str v \<longrightarrow> geo_pair lib v = (NA, NA)) \<and>
         (\<forall>t. length (split_on 44 t) \<noteq> 2 \<longrightarrow> geo_pair lib (StrV t) = (NA, NA)) \<and>
         (\<forall>t a b. split_on 44 t = [a, b] \<longrightarrow>
            geo_pair lib (StrV t)
              = (to_numeric lib (StrV (py_strip a)), to_numeric lib (StrV (py_strip b))))"
proof -
  obtain out where out: "load_gares_data lib df = Inr out"
    "rows out = map (station_row lib df) (filter (\<lambda>r. r (name_col df) \<noteq> NA) (rows df))"
    using load_gares_rows [OF assms(1), of lib] by blast
  have "cells [''lat'', ''lon''] out
      = map (\<lambda>r. [fst (geo_pair lib (r ''geo_point_2d'')),
                  snd (geo_pair lib (r ''geo_point_2d''))])
          (filter (\<lambda>r. r (name_col df) \<noteq> NA) (rows df))"
    unfolding cells_def out(2) map_map comp_def
    by (rule map_cong [OF refl]) (simp add: station_row_lat_lon [OF assms(2)])
  with out(1) geo_pair_other geo_pair_not_two geo_pair_two show ?thesis by blast
qed

text \<open>The amended claim on four rows: \<open>48.85, 2.35\<close> gives both coordinates, \<open>48.85\<close>
  without comma and a missing text give none, and \<open>48.85, abc\<close> gives the latitude
  alone.\<close>

theorem load_gares_coordinates_witness:
  "stations_source (table_of [''nom_long'', ''geo_point_2d'']
     [[StrV (py ''A''), StrV (py ''48.85, 2.35'')], [StrV (py ''B''), StrV (py ''48.85'')],
      [StrV (py ''C''), NA], [StrV (py ''D''), StrV (py ''48.85, abc'')]]) \<and>
   has_col (table_of [''nom_long'', ''geo_point_2d'']
     [[StrV (py ''A''), StrV (py ''48.85, 2.35'')], [StrV (py ''B''), StrV (py ''48.85'')],
      [StrV (py ''C''), NA], [StrV (py ''D''), StrV (py ''48.85, abc'')]]) ''geo_point_2d'' \<and>
   (\<exists>out. load_gares_data sample_lib (table_of [''nom_long'', ''geo_point_2d'']
     [[StrV (py ''A''), StrV (py ''48.85, 2.35'')], [StrV (py ''B''), StrV (py ''48.85'')],
      [StrV (py ''C''), NA], [StrV (py ''D''), StrV (py ''48.85, abc'')]]) = Inr out \<and>
     cells [''lat'', ''lon''] out
       = [[FloatV 48.85, FloatV 2.35], [NA, NA], [NA, NA], [FloatV 48.85, NA]])"
proof -
  let ?df = "table_of [''nom_long'', ''geo_point_2d'']
     [[StrV (py ''A''), StrV (py ''48.85, 2.35'')], [StrV (py ''B''), StrV (py ''48.85'')],
      [StrV (py ''C''), NA], [StrV (py ''D''), StrV (py ''48.85, abc'')]]"
  have src: "stations_source ?df"
    by code_simp
  have geo: "has_col ?df ''geo_point_2d''"
    by code_simp
  have v: "map (\<lambda>r. [fst (geo_pair sample_lib (r ''geo_point_2d'')),
                     snd (geo_pair sample_lib (r ''geo_point_2d''))])
          (filter (\<lambda>r. r (name_col ?df) \<noteq> NA) (rows ?df))
      = [[FloatV 48.85, FloatV 2.35], [NA, NA], [NA, NA], [FloatV 48.85, NA]]"
    by code_simp
  have "\<exists>out. load_gares_data sample_lib ?df = Inr out \<and>
      cells [''lat'', ''lon''] out
        = map (\<lambda>r. [fst (geo_pair sample_lib (r ''geo_point_2d'')),
                    snd (geo_pair sample_lib (r ''geo_point_2d''))])
            (filter (\<lambda>r. r (name_col ?df) \<noteq> NA) (rows ?df))"
    using load_gares_coordinates [OF src geo, of sample_lib] by blast
  then show ?thesis unfolding v using src geo by blast
qed

text \<open>
  Claim C5 as stated fails. The text \<open>48.85, abc\<close> splits into exactly two parts, the
  second of which is not a number: the record has latitude 48.85 and no longitude.
\<close>

theorem load_gares_partial_coordinates:
  "result_cells [''lat'', ''lon''] (load_gares_data sample_lib
     (table_of [''nom_long'', ''geo_point_2d''] [[StrV (py ''A''), StrV (py ''48.85, abc'')]]))
     = [[FloatV 48.85, NA]]"
  by code_simp

text \<open>
  Claim C6, as amended. The stations loader returns one record for every source row whose
  raw station name is not null and none for a row whose name is null. The station key of
  a record is the normalised raw name; it is always a string, and it is the empty string
  when the raw name normalises to nothing: such a record is returned like any other.
\<close>

theorem load_gares_names:
  assumes "stations_source df"
  shows "\<exists>out. load_gares_data lib df = Inr out \<and>
           cells [''gare''] out
             = map (\<lambda>r. [StrV (clean_name lib (r (name_col df)))])
                 (filter (\<lambda>r. r (name_col df) \<noteq> NA) (rows df))"
proof -
  obtain out where out: "load_gares_data lib df = Inr out"
    "rows out = map (station_row lib df) (filter (\<lambda>r. r (name_col df) \<noteq> NA) (rows df))"
    using load_gares_rows [OF assms, of lib] by blast
  have "cells [''gare''] out
      = map (\<lambda>r. [StrV (clean_name lib (r (name_col df)))])
          (filter (\<lambda>r. r (name_col df) \<noteq> NA) (rows df))"
    unfolding cells_def out(2) map_map comp_def
    by (rule map_cong [OF refl]) (simp add: station_row_gare)
  with out(1) show ?thesis by blast
qed

text \<open>The amended claim on three rows: the row without name is not returned, the row
  named \<open>( - )\<close> is returned with the empty key.\<close>

theorem load_gares_names_witness:
  "stations_source (table_of [''nom_long'', ''exploitant'']
     [[StrV (py ''Gare A''), StrV (py ''SNCF'')], [NA, StrV (py ''RATP'')],
      [StrV (py ''( - )''), StrV (py ''RATP'')]]) \<and>
   (\<exists>out. load_gares_data sample_lib (table_of [''nom_long'', ''exploitant'']
     [[StrV (py ''Gare A''), StrV (py ''SNCF'')], [NA, StrV (py ''RATP'')],
      [StrV (py ''( - )''), StrV (py ''RATP'')]]) = Inr out \<and>
     cells [''gare''] out = [[StrV (py ''gare a'')], [StrV []]])"
proof -
  let ?df = "table_of [''nom_long'', ''exploitant'']
     [[StrV (py ''Gare A''), StrV (py ''SNCF'')], [NA, StrV (py ''RATP'')],
      [StrV (py ''( - )''), StrV (py ''RATP'')]]"
  have src: "stations_source ?df"
    by code_simp
  have v: "map (\<lambda>r. [StrV (clean_name sample_lib (r (name_col ?df)))])
          (filter (\<lambda>r. r (name_col ?df) \<noteq> NA) (rows ?df))
      = [[StrV (py ''gare a'')], [StrV []]]"
    by code_simp
  have "\<exists>out. load_gares_data sample_lib ?df = Inr out \<and>
      cells [''gare''] out
        = map (\<lambda>r. [StrV (clean_name sample_lib (r (name_col ?df)))])
            (filter (\<lambda>r. r (name_col ?df) \<noteq> NA) (rows ?df))"
    using load_gares_names [OF src, of sample_lib] by blast
  then show ?thesis unfolding v using src by blast
qed

text \<open>
  Claim C6 as stated fails. A station named \<open>( - )\<close> is not null; its name normalises to
  the empty string, and the loader returns its record with an empty station name.
\<close>

theorem load_gares_empty_name_kept:
  "clean_name sample_lib (StrV (py ''( - )'')) = [] \<and>
   result_cells [''gare'', ''exploitant''] (load_gares_data sample_lib
     (table_of [''nom_long'', ''exploitant''] [[StrV (py ''( - )''), StrV (py ''RATP'')]]))
     = [[StrV [], StrV (py ''RATP'')]]"
  by code_simp

section \<open>The join: one block of rows per validation row\<close>

lemma match_rows_stations:
  "match_rows rcols v gs = map (combine_rows rcols v) (stations_of v gs)"
  by (induction gs) (auto simp: stations_of_def)

lemma left_join_blocks: "left_join rcols vs gs = concat (map (join_block rcols gs) vs)"
proof (induction vs)
  case Nil
  show ?case by simp
next
  case (Cons v vs)
  have "(case match_rows rcols v gs of [] \<Rightarrow> [combine_rows rcols v (\<lambda>_. NA)] | m # ms \<Rightarrow> m # ms)
      = join_block rcols gs v"
    by (cases "stations_of v gs") (simp_all add: match_rows_stations join_block_def)
  then show ?case using Cons.IH by simp
qed

lemma join_block_length:
  "length (join_block rcols gs v) = max 1 (length (stations_of v gs))"
  by (cases "stations_of v gs") (simp_all add: join_block_def)

lemma join_block_left:
  assumes "b \<in> set (join_block rcols gs v)" and "c \<notin> set rcols"
  shows "b c = v c"
  using assms by (auto simp: join_block_def combine_rows_def split: if_splits)

lemma join_block_right:
  assumes "j < length (join_block rcols gs v)" and "c \<in> set rcols"
  shows "(join_block rcols gs v ! j) c
           = (if stations_of v gs = [] then NA else (stations_of v gs ! j) c)"
  using assms by (auto simp: join_block_def combine_rows_def)

lemma merge_joinable:
  assumes "joinable df_val df_gares"
  shows "merge_validations_gares df_val df_gares =
     Inr \<lparr> columns = columns df_val @ station_cols df_gares,
           rows = left_join (station_cols df_gares) (rows df_val) (rows df_gares) \<rparr>"
  using assms by (simp add: merge_validations_gares_def joinable_def)

text \<open>
  Claim C2. The join returns, for the validation rows in their order, one block of rows
  each. The block of a validation row whose key is carried by \<open>k\<close> station rows has
  \<open>k\<close> rows when \<open>k\<close> is at least 1, the \<open>j\<close>-th of which holds the validation fields
  unchanged and the station fields of the \<open>j\<close>-th such station row (none is merged with
  another); it has exactly one row when \<open>k\<close> is 0, which holds the validation fields
  unchanged and a null in every station field.
\<close>

theorem merge_left_outer_join:
  assumes "joinable df_val df_gares"
  shows "\<exists>out blocks.
           merge_validations_gares df_val df_gares = Inr out \<and>
           rows out = concat blocks \<and> length blocks = length (rows df_val) \<and>
           (\<forall>i < length (rows df_val).
              length (blocks ! i)
                = max 1 (length (stations_of (rows df_val ! i) (rows df_gares))) \<and>
              (\<forall>j < length (blocks ! i).
                 (\<forall>c \<in> set (columns df_val). (blocks ! i ! j) c = (rows df_val ! i) c) \<and>
                 (\<forall>c \<in> set (station_cols df_gares).
                    (blocks ! i ! j) c
                      = (if stations_of (rows df_val ! i) (rows df_gares) = [] then NA
                         else (stations_of (rows df_val ! i) (rows df_gares) ! j) c))))"
proof -
  let ?rc = "station_cols df_gares"
  let ?blocks = "map (join_block ?rc (rows df_gares)) (rows df_val)"
  let ?out = "\<lparr> columns = columns df_val @ ?rc,
                rows = left_join ?rc (rows df_val) (rows df_gares) \<rparr>"
  have m: "merge_validations_gares df_val df_gares = Inr ?out"
    using assms by (rule merge_joinable)
  have r: "rows ?out = concat ?blocks" by (simp add: left_join_blocks)
  have disj: "c \<notin> set ?rc" if "c \<in> set (columns df_val)" for c
    using assms that by (auto simp: joinable_def list_ex_iff has_col_def)
  have b: "length (?blocks ! i)
        = max 1 (length (stations_of (rows df_val ! i) (rows df_gares))) \<and>
      (\<forall>j < length (?blocks ! i).
         (\<forall>c \<in> set (columns df_val). (?blocks ! i ! j) c = (rows df_val ! i) c) \<and>
         (\<forall>c \<in> set ?rc.
            (?blocks ! i ! j) c
              = (if stations_of (rows df_val ! i) (rows df_gares) = [] then NA
                 else (stations_of (rows df_val ! i) (rows df_gares) ! j) c)))"
    if i: "i < length (rows df_val)" for i
  proof -
    have e: "?blocks ! i = join_block ?rc (rows df_gares) (rows df_val ! i)"
      using i by simp
    show ?thesis
      unfolding e
      using join_block_length join_block_left join_block_right disj
      by (metis nth_mem)
  qed
  have "rows ?out = concat ?blocks \<and> length ?blocks = length (rows df_val)"
    using r by simp
  with m b show ?thesis by blast
qed

text \<open>Claim C2 on three validation rows and three station rows: the key \<open>a\<close> is carried
  by two station rows, \<open>b\<close> by one and \<open>c\<close> by none.\<close>

theorem merge_left_outer_join_witness:
  "joinable
     (table_of [''gare'', ''heure''] [[StrV (py ''a''), IntV 6], [StrV (py ''b''), IntV 7],
        [StrV (py ''c''), IntV 8]])
     (table_of [''gare'', ''mode''] [[StrV (py ''a''), StrV mode_metro],
        [StrV (py ''b''), StrV mode_train], [StrV (py ''a''), StrV mode_rer]]) \<and>
   (\<exists>out blocks.
      merge_validations_gares
        (table_of [''gare'', ''heure''] [[StrV (py ''a''), IntV 6], [StrV (py ''b''), IntV 7],
           [StrV (py ''c''), IntV 8]])
        (table_of [''gare'', ''mode''] [[StrV (py ''a''), StrV mode_metro],
           [StrV (py ''b''), StrV mode_train], [StrV (py ''a''), StrV mode_rer]]) = Inr out \<and>
      rows out = concat blocks \<and> map length blocks = [2, 1, 1]) \<and>
   result_cells [''gare'', ''heure'', ''mode'']
     (merge_validations_gares
        (table_of [''gare'', ''heure''] [[StrV (py ''a''), IntV 6], [StrV (py ''b''), IntV 7],
           [StrV (py ''c''), IntV 8]])
        (table_of [''gare'', ''mode''] [[StrV (py ''a''), StrV mode_metro],
           [StrV (py ''b''), StrV mode_train], [StrV (py ''a''), StrV mode_rer]]))
     = [[StrV (py ''a''), IntV 6, StrV mode_metro], [StrV (py ''a''), IntV 6, StrV mode_rer],
        [StrV (py ''b''), IntV 7, StrV mode_train], [StrV (py ''c''), IntV 8, NA]]"
proof -
  let ?v = "table_of [''gare'', ''heure''] [[StrV (py ''a''), IntV 6],
      [StrV (py ''b''), IntV 7], [StrV (py ''c''), IntV 8]]"
  let ?g = "table_of [''gare'', ''mode''] [[StrV (py ''a''), StrV mode_metro],
      [StrV (py ''b''), StrV mode_train], [StrV (py ''a''), StrV mode_rer]]"
  have j: "joinable ?v ?g"
    by code_simp
  have n: "length (rows ?v) = 3"
    by (simp add: table_of_def)
  have k0: "max 1 (length (stations_of (rows ?v ! 0) (rows ?g))) = 2"
    by code_simp
  have k1: "max 1 (length (stations_of (rows ?v ! 1) (rows ?g))) = 1"
    by code_simp
  have k2: "max 1 (length (stations_of (rows ?v ! 2) (rows ?g))) = 1"
    by code_simp
  have cs: "result_cells [''gare'', ''heure'', ''mode''] (merge_validations_gares ?v ?g)
     = [[StrV (py ''a''), IntV 6, StrV mode_metro], [StrV (py ''a''), IntV 6, StrV mode_rer],
        [StrV (py ''b''), IntV 7, StrV mode_train], [StrV (py ''c''), IntV 8, NA]]"
    by code_simp
  obtain out blocks where ob: "merge_validations_gares ?v ?g = Inr out"
    "rows out = concat blocks" "length blocks = length (rows ?v)"
    "\<forall>i < length (rows ?v). length (blocks ! i)
        = max 1 (length (stations_of (rows ?v ! i) (rows ?g)))"
    using merge_left_outer_join [OF j] by blast
  have l: "length blocks = 3" using ob(3) n by simp
  then obtain b0 b1 b2 where bs: "blocks = [b0, b1, b2]"
    by (auto simp: numeral_3_eq_3 length_Suc_conv)
  have "length (blocks ! 0) = 2" "length (blocks ! 1) = 1" "length (blocks ! 2) = 1"
    using ob(4) n k0 k1 k2 by simp_all
  then have ml: "map length blocks = [2, 1, 1]" unfolding bs by simp
  have c: "merge_validations_gares ?v ?g = Inr out \<and>
      rows out = concat blocks \<and> map length blocks = [2, 1, 1]"
    using ob(1) ob(2) ml by (intro conjI)
  have e: "\<exists>out blocks. merge_validations_gares ?v ?g = Inr out \<and>
      rows out = concat blocks \<and> map length blocks = [2, 1, 1]"
    by (rule exI [of _ out], rule exI [of _ blocks], rule c)
  show ?thesis using j e cs by (intro conjI)
qed

section \<open>The aggregations: what a group holds\<close>

lemma map_of_add_val:
  "map_of (add_val k x acc) j =
     (if j = k then Some ((case map_of acc k of None \<Rightarrow> [] | Some xs \<Rightarrow> xs) @ [x])
      else map_of acc j)"
  by (induction acc) auto

lemma map_of_group_values:
  "map_of (group_values ks c rs acc) k =
     (if filter (\<lambda>r. map r ks = k \<and> NA \<notin> set k) rs = [] then map_of acc k
      else Some ((case map_of acc k of None \<Rightarrow> [] | Some xs \<Rightarrow> xs)
                 @ map (\<lambda>r. r c) (filter (\<lambda>r. map r ks = k \<and> NA \<notin> set k) rs)))"
proof (induction rs arbitrary: acc)
  case Nil
  show ?case by simp
next
  case (Cons r rs)
  define P where "P = (\<lambda>r. map r ks = k \<and> NA \<notin> set k)"
  have IH: "map_of (group_values ks c rs a) k =
     (if filter P rs = [] then map_of a k
      else Some ((case map_of a k of None \<Rightarrow> [] | Some xs \<Rightarrow> xs)
                 @ map (\<lambda>r. r c) (filter P rs)))" for a
    unfolding P_def by (rule Cons.IH)
  have goal: "map_of (group_values ks c (r # rs) acc) k =
     (if filter P (r # rs) = [] then map_of acc k
      else Some ((case map_of acc k of None \<Rightarrow> [] | Some xs \<Rightarrow> xs)
                 @ map (\<lambda>r. r c) (filter P (r # rs))))"
  proof (cases "NA \<in> set (map r ks)")
    case True
    then have np: "\<not> P r" by (auto simp: P_def)
    have g: "group_values ks c (r # rs) acc = group_values ks c rs acc"
      using True by simp
    have f: "filter P (r # rs) = filter P rs" using np by simp
    show ?thesis unfolding g f by (rule IH)
  next
    case False
    have g: "group_values ks c (r # rs) acc
        = group_values ks c rs (add_val (map r ks) (r c) acc)"
      using False by simp
    show ?thesis
    proof (cases "map r ks = k")
      case True
      then have p: "P r" using False by (auto simp: P_def)
      have f: "filter P (r # rs) = r # filter P rs" using p by simp
      have m: "map_of (add_val (map r ks) (r c) acc) k
          = Some ((case map_of acc k of None \<Rightarrow> [] | Some xs \<Rightarrow> xs) @ [r c])"
        using True by (simp add: map_of_add_val)
      show ?thesis unfolding g f IH m by simp
    next
      case ne: False
      then have np: "\<not> P r" by (simp add: P_def)
      have f: "filter P (r # rs) = filter P rs" using np by simp
      have m: "map_of (add_val (map r ks) (r c) acc) k = map_of acc k"
        using ne by (simp add: map_of_add_val)
      show ?thesis unfolding g f IH m by (rule refl)
    qed
  qed
  then show ?case unfolding P_def .
qed

lemma map_of_map_snd:
  "map_of (map (\<lambda>p. (fst p, f (snd p))) al) k = map_option f (map_of al k)"
  by (induction al) auto

lemma map_of_groupby_sum:
  "map_of (groupby_sum ks c rs) k =
     (if NA \<notin> set k \<and> filter (\<lambda>r. map r ks = k) rs \<noteq> []
      then Some (sum_list (map (\<lambda>r. num_val (r c)) (filter (\<lambda>r. map r ks = k) rs)))
      else None)"
proof -
  have s: "map_of (groupby_sum ks c rs) k
      = map_option (\<lambda>vs. sum_list (map num_val vs)) (map_of (group_values ks c rs []) k)"
    unfolding groupby_sum_def by (rule map_of_map_snd)
  show ?thesis
  proof (cases "NA \<in> set k")
    case True
    then show ?thesis unfolding s map_of_group_values by simp
  next
    case False
    then have "filter (\<lambda>r. map r ks = k \<and> NA \<notin> set k) rs = filter (\<lambda>r. map r ks = k) rs"
      by simp
    then show ?thesis unfolding s map_of_group_values using False by (simp add: comp_def)
  qed
qed

lemma show_map_ready:
  assumes "map_ready df"
  shows "show_map df =
     Inr (if located df = [] then NoData
          else Figure (map_of (groupby_sum map_keys ''pct_validations'' (located df))))"
proof -
  have cols: "has_col df ''gare''" "has_col df ''lat''" "has_col df ''lon''"
    "has_col df ''mode''" "has_col df ''exploitant''" "has_col df ''pct_validations''"
    using assms by (simp_all add: map_ready_def map_keys_def)
  have num: "list_all (\<lambda>r. is_num (r ''pct_validations'')) (located df)"
    using assms by (simp add: map_ready_def located_def)
  have d: "dropna [''lat'', ''lon''] df = Inr (df\<lparr>rows := located df\<rparr>)"
    using cols by (simp add: dropna_def located_def)
  have ne: "columns df \<noteq> []" using cols(1) by (auto simp: has_col_def)
  have h: "has_col (df\<lparr>rows := located df\<rparr>) c \<longleftrightarrow> has_col df c" for c
    by (simp add: has_col_def)
  show ?thesis
    unfolding show_map_def d
    using ne num cols by (simp add: frame_empty_def h map_keys_def)
qed

lemma placed_rows_located:
  "placed_rows df k = filter (\<lambda>r. map r map_keys = k) (located df)"
  by (simp add: placed_rows_def located_def)


text \<open>
  Claim C7. On a joined table that has the five key columns and the percentage, the
  geospatial summary first leaves out every row whose \<open>lat\<close> or \<open>lon\<close> is null; when no
  row is left it shows that there is no data; otherwise it has one entry per key
  (station, lat, lon, mode, operator) without null that some remaining row carries, and
  the entry is the sum, not the mean, of the percentages of all the remaining rows with
  that key, whatever their day type and hour.
\<close>

theorem show_map_sums:
  assumes "map_ready df"
  shows "show_map df =
     Inr (if located df = [] then NoData
          else Figure (\<lambda>k. if NA \<notin> set k \<and> placed_rows df k \<noteq> []
                           then Some (sum_list (map (\<lambda>r. num_val (r ''pct_validations''))
                                                   (placed_rows df k)))
                           else None))"
proof -
  have "map_of (groupby_sum map_keys ''pct_validations'' (located df))
      = (\<lambda>k. if NA \<notin> set k \<and> placed_rows df k \<noteq> []
             then Some (sum_list (map (\<lambda>r. num_val (r ''pct_validations''))
                                     (placed_rows df k)))
             else None)"
    by (rule ext) (simp add: map_of_groupby_sum placed_rows_located)
  then show ?thesis using show_map_ready [OF assms] by simp
qed

text \<open>Claim C7 on a station with the percentage 2.0 under \<open>semaine\<close> and 3.0 under
  \<open>samedi\<close>, and a row without coordinates: the station totals 5.0.\<close>

theorem show_map_sums_witness:
  "map_ready (table_of
     [''gare'', ''type_jour'', ''pct_validations'', ''lat'', ''lon'', ''mode'', ''exploitant'']
     [[StrV (py ''a''), StrV (py ''semaine''), FloatV 2.0, FloatV 48.8, FloatV 2.3,
       StrV mode_rer, StrV (py ''RATP'')],
      [StrV (py ''a''), StrV (py ''samedi''), FloatV 3.0, FloatV 48.8, FloatV 2.3,
       StrV mode_rer, StrV (py ''RATP'')],
      [StrV (py ''b''), StrV (py ''samedi''), FloatV 7.0, NA, NA, NA, NA]]) \<and>
   (\<exists>m. show_map (table_of
     [''gare'', ''type_jour'', ''pct_validations'', ''lat'', ''lon'', ''mode'', ''exploitant'']
     [[StrV (py ''a''), StrV (py ''semaine''), FloatV 2.0, FloatV 48.8, FloatV 2.3,
       StrV mode_rer, StrV (py ''RATP'')],
      [StrV (py ''a''), StrV (py ''samedi''), FloatV 3.0, FloatV 48.8, FloatV 2.3,
       StrV mode_rer, StrV (py ''RATP'')],
      [StrV (py ''b''), StrV (py ''samedi''), FloatV 7.0, NA, NA, NA, NA]]) = Inr (Figure m) \<and>
      m [StrV (py ''a''), FloatV 48.8, FloatV 2.3, StrV mode_rer, StrV (py ''RATP'')]
        = Some 5 \<and>
      m [StrV (py ''b''), NA, NA, NA, NA] = None)"
proof -
  let ?df = "table_of
     [''gare'', ''type_jour'', ''pct_validations'', ''lat'', ''lon'', ''mode'', ''exploitant'']
     [[StrV (py ''a''), StrV (py ''semaine''), FloatV 2.0, FloatV 48.8, FloatV 2.3,
       StrV mode_rer, StrV (py ''RATP'')],
      [StrV (py ''a''), StrV (py ''samedi''), FloatV 3.0, FloatV 48.8, FloatV 2.3,
       StrV mode_rer, StrV (py ''RATP'')],
      [StrV (py ''b''), StrV (py ''samedi''), FloatV 7.0, NA, NA, NA, NA]]"
  let ?ka = "[StrV (py ''a''), FloatV 48.8, FloatV 2.3, StrV mode_rer, StrV (py ''RATP'')]"
  let ?kb = "[StrV (py ''b''), NA, NA, NA, NA]"
  let ?m = "\<lambda>k. if NA \<notin> set k \<and> placed_rows ?df k \<noteq> []
                then Some (sum_list (map (\<lambda>r. num_val (r ''pct_validations''))
                                        (placed_rows ?df k)))
                else None"
  have ready: "map_ready ?df"
    by code_simp
  have loc: "located ?df \<noteq> []"
    by code_simp
  have a1: "NA \<notin> set ?ka \<and> placed_rows ?df ?ka \<noteq> []"
    by code_simp
  have a2: "sum_list (map (\<lambda>r. num_val (r ''pct_validations'')) (placed_rows ?df ?ka)) = 5"
    by code_simp
  have b1: "NA \<in> set ?kb"
    by simp
  have fig: "show_map ?df = Inr (Figure ?m)"
    using show_map_sums [OF ready] loc by simp
  have ma: "?m ?ka = Some 5" using a1 a2 by simp
  have mb: "?m ?kb = None" using b1 by simp
  have "\<exists>m. show_map ?df = Inr (Figure m) \<and> m ?ka = Some 5 \<and> m ?kb = None"
    by (rule exI [of _ ?m]) (intro conjI fig ma mb)
  with ready show ?thesis by (intro conjI)
qed







end
